theory Spec2Isabelle
  imports Complex_Main "HOL-Library.Word"
begin

section \<open>The playground: \<open>src/App.svelte\<close>\<close>

text \<open>
  The application is one Svelte component. Its script holds a handful of state
  variables, \<open>queryDb\<close>, which builds the configuration of the external library
  \<open>sql.js-httpvfs\<close> and runs one query through it, and \<open>runQuery\<close>, the handler of
  the button. The library and the built-ins of the language are not code of the
  repository: they are parameters of the model, collected in \<open>Env\<close>.
\<close>

subsection \<open>JavaScript values\<close>

text \<open>
  A JavaScript number is a double: a rational, an infinity or \<open>NaN\<close> (the sign of
  zero plays no role here). The values a bound form field can hold are a string, a
  number, \<open>null\<close> or \<open>undefined\<close>.
\<close>

datatype jsnum = NaN | Num rat | PosInfinity | NegInfinity

datatype jsval = JUndefined | JNull | JNumber jsnum | JString string

text \<open>The comparison \<open>x > 0\<close>; every comparison with \<open>NaN\<close> is false.\<close>

fun gt_zero :: "jsnum \<Rightarrow> bool" where
  "gt_zero NaN = False"
| "gt_zero (Num q) = (0 < q)"
| "gt_zero PosInfinity = True"
| "gt_zero NegInfinity = False"

text \<open>
  \<open>Number(v)\<close> dispatches on the type of its argument (ECMAScript \<open>ToNumber\<close>):
  \<open>undefined\<close> is \<open>NaN\<close>, \<open>null\<close> is \<open>0\<close>, a number is itself, and a string is read
  by the built-in \<open>StringToNumber\<close>, which is a parameter.
\<close>

fun ToNumber :: "(string \<Rightarrow> jsnum) \<Rightarrow> jsval \<Rightarrow> jsnum" where
  "ToNumber stn JUndefined = NaN"
| "ToNumber stn JNull = Num 0"
| "ToNumber stn (JNumber n) = n"
| "ToNumber stn (JString s) = stn s"

subsection \<open>The library's interface\<close>

text \<open>
  What a rejected promise carries: \<open>queryDb\<close> is documented \<open>@throws {Error}\<close>, and
  the \<open>message\<close> of an \<open>Error\<close> is a string, the empty one when none was given.
\<close>

datatype Error = Error (message: string)

text \<open>A result row is an object: column names with their values.\<close>

type_synonym row = "(string \<times> jsval) list"

record Config =
  serverMode :: string
  url :: string
  requestChunkSize :: jsnum
  fileSize :: "jsnum option"

text \<open>The element \<open>{ from: "inline", config }\<close> of the first argument of \<open>createDbWorker\<close>.\<close>

record SplitFileConfig =
  from' :: string
  config :: Config

text \<open>The object \<open>worker.worker.getStats()\<close> resolves to, as far as the component reads it.\<close>

record WorkerStats =
  stats_totalRequests :: nat
  stats_totalBytes :: nat

text \<open>
  The worker \<open>createDbWorker\<close> resolves to: \<open>worker.db.query(sql)\<close>,
  \<open>worker.worker.bytesRead\<close> and \<open>worker.worker.getStats()\<close>, each a promise that
  resolves or rejects.
\<close>

record Worker =
  db_query :: "string \<Rightarrow> Error + row list"
  worker_bytesRead :: "Error + nat"
  worker_getStats :: "Error + WorkerStats"

text \<open>Everything the component imports and does not define.\<close>

record Env =
  StringToNumber :: "string \<Rightarrow> jsnum"
  createDbWorker :: "SplitFileConfig list \<Rightarrow> string \<Rightarrow> string \<Rightarrow> Error + Worker"
  workerUrl :: string
  wasmUrl :: string
  JSON_stringify :: "row list \<Rightarrow> string"

definition Number :: "Env \<Rightarrow> jsval \<Rightarrow> jsnum" where
  "Number env v = ToNumber (StringToNumber env) v"

text \<open>The calls that reach the library, in the order they are made.\<close>

datatype call =
    CreateDbWorker "SplitFileConfig list" string string
  | DbQuery string
  | BytesRead
  | GetStats

subsection \<open>State of the component\<close>

text \<open>What \<open>new Blob([text], { type })\<close> holds.\<close>

record Blob =
  blob_text :: string
  blob_type :: string

text \<open>
  The state variables of the script. \<open>pageSize\<close>, \<open>sqlQuery\<close> and \<open>dbUrl\<close> are
  strings. \<open>dbFileSize\<close> starts as a string and is bound to an input of type
  \<open>number\<close>, which hands back a number, or \<open>null\<close> for an emptied field; it is a
  \<open>jsval\<close>. \<open>null\<close> in the other variables is \<open>None\<close>.
\<close>

record App =
  pageSize :: string
  sqlQuery :: string
  dbUrl :: string
  dbFileSize :: jsval
  result :: "row list option"
  timeTaken :: "rat option"
  bytesRead :: "nat option"
  querying :: bool
  error :: bool
  errorMessage :: string
  jsonFile :: "Blob option"
  totalBytes :: "nat option"
  totalRequests :: "nat option"

definition DEFAULT_SQL_QUERY :: string where
  "DEFAULT_SQL_QUERY = ''SELECT * FROM titles WHERE title_id LIKE \"tt00000%\";''"

definition DEFAULT_DB_URL :: string where
  "DEFAULT_DB_URL =
     ''https://nishad.github.io/sql.js-httpvfs-playground/db/imdb-titles-100000_1024_indexed.sqlite3''"

definition DEFAULT_DB_SIZE :: nat where
  "DEFAULT_DB_SIZE = 10261504"

text \<open>
  The state the component starts in. \<open>dbFileSize\<close> starts as the string
  \<open>String(DEFAULT_DB_SIZE)\<close>.
\<close>

definition initial :: App where
  "initial =
     \<lparr> pageSize = ''1024'', sqlQuery = DEFAULT_SQL_QUERY, dbUrl = DEFAULT_DB_URL,
       dbFileSize = JString ''10261504'', result = None, timeTaken = None,
       bytesRead = None, querying = False, error = False, errorMessage = '''',
       jsonFile = None, totalBytes = None, totalRequests = None \<rparr>"

subsection \<open>\<open>queryDb\<close>\<close>

text \<open>What \<open>queryDb\<close> resolves to: \<open>{ result, bytesRead, stats }\<close>.\<close>

datatype QueryData =
  QueryData (data_result: "row list") (data_bytesRead: nat) (data_stats: WorkerStats)

text \<open>
  The configuration object: the three fixed keys, and \<open>fileSize\<close> added under the
  guard \<open>fileSizeNum > 0\<close>.
\<close>

definition queryDb_config :: "Env \<Rightarrow> App \<Rightarrow> Config" where
  "queryDb_config env st =
     (let config = \<lparr> serverMode = ''full'', url = dbUrl st,
                      requestChunkSize = Number env (JString (pageSize st)),
                      fileSize = None \<rparr>;
          fileSizeNum = Number env (dbFileSize st)
      in if gt_zero fileSizeNum then config\<lparr>fileSize := Some fileSizeNum\<rparr> else config)"

text \<open>
  \<open>queryDb\<close> awaits four promises in turn; the first rejection ends it. The second
  component is the list of calls made to the library.
\<close>

definition queryDb :: "Env \<Rightarrow> App \<Rightarrow> (Error + QueryData) \<times> call list" where
  "queryDb env st =
     (let config = queryDb_config env st;
          files = [\<lparr> from' = ''inline'', config = config \<rparr>];
          c1 = CreateDbWorker files (workerUrl env) (wasmUrl env);
          c2 = DbQuery (sqlQuery st)
      in case createDbWorker env files (workerUrl env) (wasmUrl env) of
           Inl err \<Rightarrow> (Inl err, [c1])
         | Inr worker \<Rightarrow>
            (case db_query worker (sqlQuery st) of
               Inl err \<Rightarrow> (Inl err, [c1, c2])
             | Inr queryResult \<Rightarrow>
                (case worker_bytesRead worker of
                   Inl err \<Rightarrow> (Inl err, [c1, c2, BytesRead])
                 | Inr bytes \<Rightarrow>
                    (case worker_getStats worker of
                       Inl err \<Rightarrow> (Inl err, [c1, c2, BytesRead, GetStats])
                     | Inr stats \<Rightarrow>
                        (Inr (QueryData queryResult bytes stats),
                         [c1, c2, BytesRead, GetStats])))))"

subsection \<open>\<open>runQuery\<close>\<close>

text \<open>The assignments before the promise is awaited.\<close>

definition runQuery_reset :: "App \<Rightarrow> App" where
  "runQuery_reset st = st\<lparr> result := None, querying := True, error := False, errorMessage := '''' \<rparr>"

text \<open>The \<open>try\<close> block after the promise has resolved with \<open>data\<close>.\<close>

definition runQuery_resolved :: "Env \<Rightarrow> rat \<Rightarrow> QueryData \<Rightarrow> App \<Rightarrow> App" where
  "runQuery_resolved env time data st =
     st\<lparr> result := Some (data_result data),
         timeTaken := Some time,
         bytesRead := Some (data_bytesRead data),
         totalRequests := Some (stats_totalRequests (data_stats data)),
         totalBytes := Some (stats_totalBytes (data_stats data)),
         jsonFile := Some \<lparr> blob_text = JSON_stringify env (data_result data),
                             blob_type = ''application/json'' \<rparr> \<rparr>"

text \<open>The \<open>catch\<close> block; \<open>err.message || "An unknown error occurred"\<close>.\<close>

definition runQuery_rejected :: "Error \<Rightarrow> App \<Rightarrow> App" where
  "runQuery_rejected err st =
     st\<lparr> error := True,
         errorMessage := (if message err \<noteq> '''' then message err
                          else ''An unknown error occurred''),
         jsonFile := None \<rparr>"

text \<open>
  One click on the button, from the reset to the \<open>finally\<close> block. \<open>time\<close> is the
  duration \<open>pTime\<close> measured.
\<close>

definition runQuery :: "Env \<Rightarrow> rat \<Rightarrow> App \<Rightarrow> App \<times> call list" where
  "runQuery env time st0 =
     (let st1 = runQuery_reset st0;
          (queryData, calls) = queryDb env st1;
          st2 = (case queryData of
                   Inr data \<Rightarrow> runQuery_resolved env time data st1
                 | Inl err \<Rightarrow> runQuery_rejected err st1)
      in (st2\<lparr> querying := False \<rparr>, calls))"


subsection \<open>The earlier revision of the component (\<open>src/unnamed/part_002\<close>)\<close>

text \<open>
  There \<open>queryDb\<close> passes no \<open>fileSize\<close>, \<open>runQuery\<close> chains \<open>then\<close> and \<open>catch\<close>, does
  not reset \<open>errorMessage\<close> and stores \<open>queryError.message\<close> as it is.
\<close>

definition queryDb_config_part002 :: "Env \<Rightarrow> App \<Rightarrow> Config" where
  "queryDb_config_part002 env st =
     \<lparr> serverMode = ''full'', url = dbUrl st,
       requestChunkSize = Number env (JString (pageSize st)), fileSize = None \<rparr>"

definition queryDb_part002 :: "Env \<Rightarrow> App \<Rightarrow> (Error + QueryData) \<times> call list" where
  "queryDb_part002 env st =
     (let files = [\<lparr> from' = ''inline'', config = queryDb_config_part002 env st \<rparr>];
          c1 = CreateDbWorker files (workerUrl env) (wasmUrl env);
          c2 = DbQuery (sqlQuery st)
      in case createDbWorker env files (workerUrl env) (wasmUrl env) of
           Inl err \<Rightarrow> (Inl err, [c1])
         | Inr worker \<Rightarrow>
            (case db_query worker (sqlQuery st) of
               Inl err \<Rightarrow> (Inl err, [c1, c2])
             | Inr rows \<Rightarrow>
                (case worker_bytesRead worker of
                   Inl err \<Rightarrow> (Inl err, [c1, c2, BytesRead])
                 | Inr bytes \<Rightarrow>
                    (case worker_getStats worker of
                       Inl err \<Rightarrow> (Inl err, [c1, c2, BytesRead, GetStats])
                     | Inr stats \<Rightarrow>
                        (Inr (QueryData rows bytes stats),
                         [c1, c2, BytesRead, GetStats])))))"

definition runQuery_part002 :: "Env \<Rightarrow> rat \<Rightarrow> App \<Rightarrow> App \<times> call list" where
  "runQuery_part002 env time st0 =
     (let st1 = st0\<lparr> result := None, querying := True, error := False \<rparr>;
          (queryData, calls) = queryDb_part002 env st1
      in (case queryData of
            Inr data \<Rightarrow>
              st1\<lparr> result := Some (data_result data),
                   timeTaken := Some time,
                   bytesRead := Some (data_bytesRead data),
                   totalRequests := Some (stats_totalRequests (data_stats data)),
                   totalBytes := Some (stats_totalBytes (data_stats data)),
                   querying := False,
                   error := False,
                   jsonFile := Some \<lparr> blob_text = JSON_stringify env (data_result data),
                                       blob_type = ''application/json'' \<rparr> \<rparr>
          | Inl queryError \<Rightarrow>
              st1\<lparr> error := True,
                   errorMessage := message queryError,
                   querying := False,
                   jsonFile := None \<rparr>,
          calls))"

subsection \<open>An environment to run the component in\<close>

text \<open>
  An instance of \<open>StringToNumber\<close>: blanks around the text are dropped, the blank
  string is \<open>0\<close>, an optional sign and decimal digits are the integer they spell,
  and any other text is \<open>NaN\<close>. On blank strings, on signed decimal integers below
  \<open>2^53\<close> and on text that is no numeric literal this is what ECMAScript computes;
  literals with a fraction, an exponent, a radix prefix or \<open>Infinity\<close> are not
  read. The theorems about the component hold for every \<open>StringToNumber\<close>; this
  one serves to run it.
\<close>

definition is_blank :: "char \<Rightarrow> bool" where
  "is_blank c = (c \<in> set [CHR '' '', CHR 0x09, CHR 0x0A, CHR 0x0B, CHR 0x0C, CHR 0x0D, CHR 0xA0])"

definition trim :: "string \<Rightarrow> string" where
  "trim s = rev (dropWhile is_blank (rev (dropWhile is_blank s)))"

definition digit_of :: "char \<Rightarrow> nat option" where
  "digit_of c =
     (let n = (of_char c :: nat) in if 48 \<le> n \<and> n \<le> 57 then Some (n - 48) else None)"

fun digits_from :: "nat \<Rightarrow> string \<Rightarrow> nat option" where
  "digits_from acc [] = Some acc"
| "digits_from acc (c # cs) =
     (case digit_of c of None \<Rightarrow> None | Some d \<Rightarrow> digits_from (10 * acc + d) cs)"

definition decimal_digits :: "string \<Rightarrow> nat option" where
  "decimal_digits s = (if s = [] then None else digits_from 0 s)"

definition StringToNumber_dec :: "string \<Rightarrow> jsnum" where
  "StringToNumber_dec s =
     (let t = trim s in
      if t = [] then Num 0
      else if hd t = CHR ''-'' then
        (case decimal_digits (tl t) of None \<Rightarrow> NaN | Some n \<Rightarrow> Num (- of_nat n))
      else if hd t = CHR ''+'' then
        (case decimal_digits (tl t) of None \<Rightarrow> NaN | Some n \<Rightarrow> Num (of_nat n))
      else
        (case decimal_digits t of None \<Rightarrow> NaN | Some n \<Rightarrow> Num (of_nat n)))"

text \<open>
  A library that answers every query with one row that repeats what it was given:
  the query text and the configuration of the first file.
\<close>

definition echo_worker :: "SplitFileConfig list \<Rightarrow> Worker" where
  "echo_worker files =
     \<lparr> db_query = (\<lambda>sql.
          Inr [[(''sql'', JString sql),
                (''url'', JString (url (config (hd files)))),
                (''requestChunkSize'', JNumber (requestChunkSize (config (hd files)))),
                (''fileSize'', (case fileSize (config (hd files)) of
                                  None \<Rightarrow> JUndefined | Some n \<Rightarrow> JNumber n))]]),
       worker_bytesRead = Inr 4096,
       worker_getStats = Inr \<lparr> stats_totalRequests = 4, stats_totalBytes = 10261504 \<rparr> \<rparr>"

definition echo_env :: Env where
  "echo_env =
     \<lparr> StringToNumber = StringToNumber_dec,
       createDbWorker = (\<lambda>files w u. Inr (echo_worker files)),
       workerUrl = ''sqlite.worker.js'',
       wasmUrl = ''sql-wasm.wasm'',
       JSON_stringify = (\<lambda>rows. ''[]'') \<rparr>"

text \<open>A library whose worker cannot be created: the promise rejects with \<open>err\<close>.\<close>

definition rejecting_env :: "Error \<Rightarrow> Env" where
  "rejecting_env err = echo_env\<lparr> createDbWorker := (\<lambda>files w u. Inl err) \<rparr>"

text \<open>A state that still shows the table and the export of an earlier query.\<close>

definition after_success :: App where
  "after_success = fst (runQuery echo_env 12 initial)"

section \<open>The range reader the specification describes\<close>

text \<open>
  The component implements none of the chunked reader: ranged requests, the page
  cache and the counters are code of the library \<open>sql.js-httpvfs\<close>, which is not
  among the sources. The definitions of this section follow the words of the
  specification (sections 3, 4 and 7), and each says so.
\<close>

subsection \<open>Data model\<close>

text \<open>Modelled from the spec: the bytes of "byte sequence", eight bits each.\<close>

type_synonym byte = "8 word"

text \<open>Modelled from the spec: the error taxonomy of section 7; no source file defines it.\<close>

datatype ReadError = NetworkError | RangeNotSupportedError | OutOfRangeError | UnknownSizeError

text \<open>
  Modelled from the spec: \<open>Stats\<close> of section 3, the cumulative counters
  \<open>totalRequests\<close> and \<open>totalBytes\<close>; the counters themselves are kept by the missing
  library.
\<close>

record Stats =
  totalRequests' :: nat
  totalBytes' :: nat

text \<open>
  Modelled from the spec: \<open>Page\<close> of section 3, with \<open>index\<close>, \<open>data\<close> and the
  timestamp \<open>fetchedAt\<close>; the page cache is part of the missing library.
\<close>

record Page =
  index :: nat
  data' :: "byte list"
  fetchedAt :: nat

text \<open>
  Modelled from the spec: \<open>FileHandle\<close> of section 3, with \<open>url\<close>, \<open>totalSize\<close> (absent
  when no size is known) and \<open>pageSize\<close>; the handle is part of the missing library.
\<close>

record FileHandle =
  url' :: string
  totalSize :: "nat option"
  pageSize' :: nat

subsection \<open>The remote host\<close>

text \<open>
  Modelled from the spec: the three ways section 4.1 lets a ranged request end, a
  partial-content response (206), a full-content response (200) and a transport
  failure; the HTTP client is part of the missing library.
\<close>

datatype Reply = TransportFailure | PartialContent "byte list" | FullContent "byte list"

text \<open>
  Modelled from the spec: the host's choice among these three for one request; the
  body of a response is then fixed by the resource.
\<close>

datatype Answer = Partial | Full | Down

text \<open>
  Modelled from the spec: the remote resource of sections 4.4 and 6, immutable
  during a session. \<open>resource\<close> is the reference byte array; \<open>answers n startByte
  endByte\<close> says how the host treats the \<open>n\<close>-th request of the session, so that a
  failure may pass and the same range succeed later.
\<close>

record Host =
  resource :: "byte list"
  answers :: "nat \<Rightarrow> nat \<Rightarrow> nat \<Rightarrow> Answer"

text \<open>
  Modelled from the spec: one \<open>GET\<close> with \<open>Range: bytes=start-end\<close> (section 6). A
  partial-content response carries the bytes \<open>start .. end\<close> of the resource, both
  ends included, as far as the resource reaches; a full-content response carries
  all of it.
\<close>

definition http_get :: "Host \<Rightarrow> nat \<Rightarrow> nat \<Rightarrow> nat \<Rightarrow> Reply" where
  "http_get host n startByte endByteInclusive =
     (case answers host n startByte endByteInclusive of
        Down \<Rightarrow> TransportFailure
      | Full \<Rightarrow> FullContent (resource host)
      | Partial \<Rightarrow>
          PartialContent (take (endByteInclusive + 1 - startByte) (drop startByte (resource host))))"

subsection \<open>RangeFetcher\<close>

text \<open>
  Modelled from the spec: \<open>fetchRange(url, startByte, endByteInclusive)\<close> of section
  4.1, which the missing library would implement. A single request;
  \<open>NetworkError\<close> on a transport failure, \<open>RangeNotSupportedError\<close> on a full-content
  response; the request counter goes up once per call and the byte counter by the
  length of the body that arrived. The request is the session's
  \<open>totalRequests\<close>-th.
\<close>

definition fetchRange ::
  "Host \<Rightarrow> Stats \<Rightarrow> string \<Rightarrow> nat \<Rightarrow> nat \<Rightarrow> (ReadError + byte list) \<times> Stats" where
  "fetchRange host st u startByte endByteInclusive =
     (case http_get host (totalRequests' st) startByte endByteInclusive of
        TransportFailure \<Rightarrow>
          (Inl NetworkError, st\<lparr> totalRequests' := totalRequests' st + 1 \<rparr>)
      | FullContent body \<Rightarrow>
          (Inl RangeNotSupportedError,
           st\<lparr> totalRequests' := totalRequests' st + 1,
               totalBytes' := totalBytes' st + length body \<rparr>)
      | PartialContent body \<Rightarrow>
          (Inr body,
           st\<lparr> totalRequests' := totalRequests' st + 1,
               totalBytes' := totalBytes' st + length body \<rparr>))"

subsection \<open>PageCache\<close>

text \<open>
  Modelled from the spec: the unbounded cache of section 4.2, pages keyed by page
  index, which the missing library would keep. The bounded variant the section
  allows for is not modelled.
\<close>

type_synonym PageCache = "nat \<rightharpoonup> Page"

text \<open>
  Modelled from the spec: \<open>get(pageIndex) -> Page or miss\<close> of section 4.2, a pure
  lookup.
\<close>

definition get :: "PageCache \<Rightarrow> nat \<Rightarrow> Page option" where
  "get c pageIndex = c pageIndex"

text \<open>
  Modelled from the spec: \<open>put(page)\<close> of section 4.2; the entry of the page's index
  is replaced as a whole.
\<close>

definition put :: "PageCache \<Rightarrow> Page \<Rightarrow> PageCache" where
  "put c page = c(index page \<mapsto> page)"

subsection \<open>VirtualFileReader\<close>

text \<open>
  Modelled from the spec: the state one \<open>VirtualFileReader\<close> owns (sections 2 and
  9), its cache and its counters. \<open>requested\<close> lists the ranges asked of the host,
  oldest first; it is kept to say which ranges were fetched and nothing reads it.
\<close>

record Reader =
  pageCache :: PageCache
  statsCollector :: Stats
  requested :: "(nat \<times> nat) list"

text \<open>Modelled from the spec: a new handle starts with an empty cache and counters at zero.\<close>

definition newReader :: Reader where
  "newReader =
     \<lparr> pageCache = Map.empty, statsCollector = \<lparr> totalRequests' = 0, totalBytes' = 0 \<rparr>, requested = [] \<rparr>"

text \<open>
  Modelled from the spec: the page indices of a \<open>ReadRequest\<close> (section 3),
  \<open>floor(offset/pageSize) .. floor((offset+length-1)/pageSize)\<close>, both ends
  included, computed over the integers so that a read of no bytes at offset \<open>0\<close> ends
  at page \<open>-1\<close> and touches nothing.
\<close>

definition pageIndices :: "nat \<Rightarrow> nat \<Rightarrow> nat \<Rightarrow> nat list" where
  "pageIndices ps offset len =
     map nat [int offset div int ps .. (int offset + int len - 1) div int ps]"

text \<open>
  Modelled from the spec: the absolute byte range of a page (section 4.3),
  \<open>index*pageSize\<close> to \<open>min(totalSize, (index+1)*pageSize) - 1\<close>.
\<close>

definition pageRange :: "nat \<Rightarrow> nat \<Rightarrow> nat \<Rightarrow> nat \<times> nat" where
  "pageRange ps tsize i = (i * ps, min tsize ((i + 1) * ps) - 1)"

text \<open>
  Modelled from the spec: one step of the algorithm of section 4.3. The cache is
  asked first; on a miss the page's range is fetched, a \<open>Page\<close> is built and put
  into the cache. A failed fetch leaves the cache as it was.
\<close>

definition loadPage ::
  "Host \<Rightarrow> FileHandle \<Rightarrow> nat \<Rightarrow> Reader \<Rightarrow> nat \<Rightarrow> (ReadError + Page) \<times> Reader" where
  "loadPage host h tsize rd i =
     (case get (pageCache rd) i of
        Some page \<Rightarrow> (Inr page, rd)
      | None \<Rightarrow>
          (let (startByte, endByte) = pageRange (pageSize' h) tsize i;
               (fetched, st) = fetchRange host (statsCollector rd) (url' h) startByte endByte;
               rd' = rd\<lparr> statsCollector := st, requested := requested rd @ [(startByte, endByte)] \<rparr>
           in case fetched of
                Inl e \<Rightarrow> (Inl e, rd')
              | Inr body \<Rightarrow>
                  (let page = \<lparr> index = i, data' = body,
                                fetchedAt = totalRequests' (statsCollector rd) \<rparr>
                   in (Inr page, rd'\<lparr> pageCache := put (pageCache rd) page \<rparr>))))"

text \<open>
  Modelled from the spec: "for each page index" of section 4.3, in ascending
  order; the first error ends the read (section 7).
\<close>

fun loadPages ::
  "Host \<Rightarrow> FileHandle \<Rightarrow> nat \<Rightarrow> Reader \<Rightarrow> nat list \<Rightarrow> (ReadError + Page list) \<times> Reader" where
  "loadPages host h tsize rd [] = (Inr [], rd)"
| "loadPages host h tsize rd (i # is) =
     (case loadPage host h tsize rd i of
        (Inl e, rd') \<Rightarrow> (Inl e, rd')
      | (Inr page, rd') \<Rightarrow>
          (case loadPages host h tsize rd' is of
             (Inl e, rd'') \<Rightarrow> (Inl e, rd'')
           | (Inr pages, rd'') \<Rightarrow> (Inr (page # pages), rd'')))"

text \<open>
  Modelled from the spec: \<open>read(offset, length)\<close> of section 4.3.
  \<open>UnknownSizeError\<close> without a size, \<open>OutOfRangeError\<close> when
  \<open>offset + length > totalSize\<close>; otherwise the pages of the range are loaded, their
  bytes concatenated and \<open>[offset, offset+length)\<close> sliced out. Offsets and lengths
  are byte counts, so \<open>offset >= 0\<close> holds by type.
\<close>

definition read ::
  "Host \<Rightarrow> FileHandle \<Rightarrow> Reader \<Rightarrow> nat \<Rightarrow> nat \<Rightarrow> (ReadError + byte list) \<times> Reader" where
  "read host h rd offset len =
     (case totalSize h of
        None \<Rightarrow> (Inl UnknownSizeError, rd)
      | Some tsize \<Rightarrow>
          if offset + len > tsize then (Inl OutOfRangeError, rd)
          else
            (case loadPages host h tsize rd (pageIndices (pageSize' h) offset len) of
               (Inl e, rd') \<Rightarrow> (Inl e, rd')
             | (Inr pages, rd') \<Rightarrow>
                 (Inr (take len
                        (drop (offset - (offset div pageSize' h) * pageSize' h)
                          (concat (map data' pages)))),
                  rd')))"

text \<open>
  Modelled from the spec: a session (section 5), the reads a consumer issues one
  after the other on one handle, whatever each returned.
\<close>

fun session :: "Host \<Rightarrow> FileHandle \<Rightarrow> Reader \<Rightarrow> (nat \<times> nat) list \<Rightarrow> Reader" where
  "session host h rd [] = rd"
| "session host h rd ((offset, len) # reads) =
     session host h (snd (read host h rd offset len)) reads"

text \<open>
  Modelled from the spec: the reads of section 8's round trip, each starting where
  the one before ended; the bytes they return are collected in order.
\<close>

fun readAdjacent ::
  "Host \<Rightarrow> FileHandle \<Rightarrow> Reader \<Rightarrow> nat \<Rightarrow> nat list \<Rightarrow> (ReadError + byte list list) \<times> Reader" where
  "readAdjacent host h rd offset [] = (Inr [], rd)"
| "readAdjacent host h rd offset (len # lens) =
     (case read host h rd offset len of
        (Inl e, rd') \<Rightarrow> (Inl e, rd')
      | (Inr bytes, rd') \<Rightarrow>
          (case readAdjacent host h rd' (offset + len) lens of
             (Inl e, rd'') \<Rightarrow> (Inl e, rd'')
           | (Inr rest, rd'') \<Rightarrow> (Inr (bytes # rest), rd'')))"

subsection \<open>Hosts and handles to run the reader on\<close>

text \<open>Modelled from the spec: a host that answers every ranged request with partial content.\<close>

definition serving :: "byte list \<Rightarrow> Host" where
  "serving bytes = \<lparr> resource = bytes, answers = (\<lambda>n startByte endByte. Partial) \<rparr>"

text \<open>
  Modelled from the spec: the handle of section 8's scenario, a resource of
  \<open>10,000\<close> bytes read in pages of \<open>1024\<close>.
\<close>

definition scenario_handle :: FileHandle where
  "scenario_handle = \<lparr> url' = ''db.sqlite3'', totalSize = Some 10000, pageSize' = 1024 \<rparr>"

text \<open>
  Modelled from the spec: a host for the scenario, ten thousand zero bytes served
  with partial content.
\<close>

definition scenario_host :: Host where
  "scenario_host = serving (replicate 10000 0)"

text \<open>
  Modelled from the spec: a handle on a resource of ten bytes, read in pages of
  four, so that the last page is a partial one.
\<close>

definition small_handle :: FileHandle where
  "small_handle = \<lparr> url' = ''small.db'', totalSize = Some 10, pageSize' = 4 \<rparr>"

text \<open>Modelled from the spec: the ten bytes of that resource, its reference byte array.\<close>

definition small_bytes :: "byte list" where
  "small_bytes = [10, 11, 12, 13, 14, 15, 16, 17, 18, 19]"

text \<open>
  Modelled from the spec: a host of these ten bytes whose first answer is a
  transport failure (\<open>NetworkError\<close>, which the caller may retry) and which serves
  partial content from then on.
\<close>

definition flaky_host :: Host where
  "flaky_host =
     \<lparr> resource = small_bytes,
       answers = (\<lambda>n startByte endByte. if n = 0 then Down else Partial) \<rparr>"

subsection \<open>Notions the properties are stated with\<close>

text \<open>
  Modelled from the spec: the cache misses of a read (section 4.3), the pages among
  \<open>is\<close> that the cache does not hold when the read starts.
\<close>

definition missing :: "Reader \<Rightarrow> nat list \<Rightarrow> nat list" where
  "missing rd is = filter (\<lambda>i. get (pageCache rd) i = None) is"

text \<open>
  Modelled from the spec: the bytes of page \<open>i\<close> of a resource (section 3), a block
  of \<open>pageSize\<close> bytes, shorter only at the end of the resource.
\<close>

definition pageBytes :: "nat \<Rightarrow> byte list \<Rightarrow> nat \<Rightarrow> byte list" where
  "pageBytes ps bytes i = take ps (drop (i * ps) bytes)"

text \<open>
  Modelled from the spec: "a page, once cached, is never partially updated"
  (section 3), as the invariant that every cached page holds the bytes of its place
  in the resource.
\<close>

definition cache_ok :: "Host \<Rightarrow> FileHandle \<Rightarrow> Reader \<Rightarrow> bool" where
  "cache_ok host h rd \<longleftrightarrow>
     (\<forall>i page. pageCache rd i = Some page \<longrightarrow>
        index page = i \<and> data' page = pageBytes (pageSize' h) (resource host) i)"

section \<open>Properties of the component\<close>

subsection \<open>Running the instance\<close>

lemma dec_default: "StringToNumber_dec ''10261504'' = Num 10261504"
  by (simp add: StringToNumber_dec_def trim_def is_blank_def decimal_digits_def digit_of_def)

lemma dec_1024: "StringToNumber_dec ''1024'' = Num 1024"
  by (simp add: StringToNumber_dec_def trim_def is_blank_def decimal_digits_def digit_of_def)

lemma dec_empty: "StringToNumber_dec '''' = Num 0"
  by (simp add: StringToNumber_dec_def trim_def)

lemma dec_zero: "StringToNumber_dec ''0'' = Num 0"
  by (simp add: StringToNumber_dec_def trim_def is_blank_def decimal_digits_def digit_of_def)

lemma dec_negative: "StringToNumber_dec ''-5'' = Num (- 5)"
  by (simp add: StringToNumber_dec_def trim_def is_blank_def decimal_digits_def digit_of_def)

lemma dec_text: "StringToNumber_dec ''abc'' = NaN"
  by (simp add: StringToNumber_dec_def trim_def is_blank_def decimal_digits_def digit_of_def)

lemma echo_env_fields:
  "StringToNumber echo_env = StringToNumber_dec"
  "workerUrl echo_env = ''sqlite.worker.js''"
  "wasmUrl echo_env = ''sql-wasm.wasm''"
  "createDbWorker echo_env files w u = Inr (echo_worker files)"
  by (simp_all add: echo_env_def)

lemma rejecting_env_fields:
  "StringToNumber (rejecting_env err) = StringToNumber_dec"
  "workerUrl (rejecting_env err) = ''sqlite.worker.js''"
  "wasmUrl (rejecting_env err) = ''sql-wasm.wasm''"
  "createDbWorker (rejecting_env err) files w u = Inl err"
  by (simp_all add: rejecting_env_def echo_env_def)

lemma echo_worker_fields:
  "db_query (echo_worker files) sql =
     Inr [[(''sql'', JString sql),
           (''url'', JString (url (config (hd files)))),
           (''requestChunkSize'', JNumber (requestChunkSize (config (hd files)))),
           (''fileSize'', (case fileSize (config (hd files)) of
                             None \<Rightarrow> JUndefined | Some n \<Rightarrow> JNumber n))]]"
  "worker_bytesRead (echo_worker files) = Inr 4096"
  "worker_getStats (echo_worker files) =
     Inr \<lparr> stats_totalRequests = 4, stats_totalBytes = 10261504 \<rparr>"
  by (simp_all add: echo_worker_def)

lemma initial_fields:
  "pageSize initial = ''1024''"
  "dbFileSize initial = JString ''10261504''"
  "dbUrl initial = DEFAULT_DB_URL"
  "sqlQuery initial = DEFAULT_SQL_QUERY"
  by (simp_all add: initial_def)

lemma Number_echo_env:
  "Number echo_env (JString s) = StringToNumber_dec s"
  "Number (rejecting_env err) (JString s) = StringToNumber_dec s"
  by (simp_all add: Number_def echo_env_fields rejecting_env_fields)

lemma Number_initial:
  "Number echo_env (dbFileSize initial) = Num 10261504"
  "Number echo_env (JString (pageSize initial)) = Num 1024"
  by (simp_all add: Number_echo_env initial_fields dec_default dec_1024)

subsection \<open>What \<open>queryDb\<close> reads and what it hands on\<close>

lemma runQuery_reset_inputs:
  "pageSize (runQuery_reset st) = pageSize st"
  "sqlQuery (runQuery_reset st) = sqlQuery st"
  "dbUrl (runQuery_reset st) = dbUrl st"
  "dbFileSize (runQuery_reset st) = dbFileSize st"
  by (simp_all add: runQuery_reset_def)

lemma queryDb_config_reset: "queryDb_config env (runQuery_reset st) = queryDb_config env st"
  by (simp add: queryDb_config_def runQuery_reset_inputs)

text \<open>The reset touches none of the fields \<open>queryDb\<close> reads.\<close>

lemma queryDb_reset: "queryDb env (runQuery_reset st) = queryDb env st"
  unfolding queryDb_def queryDb_config_reset runQuery_reset_inputs ..

lemma queryDb_config_fields:
  "serverMode (queryDb_config env st) = ''full''"
  "url (queryDb_config env st) = dbUrl st"
  "requestChunkSize (queryDb_config env st) = Number env (JString (pageSize st))"
  "fileSize (queryDb_config env st) =
     (if gt_zero (Number env (dbFileSize st)) then Some (Number env (dbFileSize st)) else None)"
  by (simp_all add: queryDb_config_def Let_def)

lemma queryDb_config_eq:
  "queryDb_config env st =
     \<lparr> serverMode = ''full'', url = dbUrl st,
       requestChunkSize = Number env (JString (pageSize st)),
       fileSize = (if gt_zero (Number env (dbFileSize st))
                   then Some (Number env (dbFileSize st)) else None) \<rparr>"
  by (simp add: queryDb_config_def Let_def)

text \<open>
  The first call is \<open>createDbWorker\<close> with the one inline file; whatever follows is
  the query with the editor's text, the read of \<open>bytesRead\<close> and \<open>getStats\<close>.
\<close>

lemma queryDb_calls:
  "\<exists>rest. snd (queryDb env st) =
      CreateDbWorker [\<lparr> from' = ''inline'', config = queryDb_config env st \<rparr>]
        (workerUrl env) (wasmUrl env) # rest
    \<and> set rest \<subseteq> {DbQuery (sqlQuery st), BytesRead, GetStats}"
  by (simp add: queryDb_def Let_def split: sum.splits)

lemma queryDb_created:
  assumes "createDbWorker env [\<lparr> from' = ''inline'', config = queryDb_config env st \<rparr>]
             (workerUrl env) (wasmUrl env) = Inr worker"
  shows "\<exists>rest. snd (queryDb env st) =
      [CreateDbWorker [\<lparr> from' = ''inline'', config = queryDb_config env st \<rparr>]
         (workerUrl env) (wasmUrl env), DbQuery (sqlQuery st)] @ rest"
  using assms by (simp add: queryDb_def Let_def split: sum.splits)

lemma queryDb_resolves:
  assumes "createDbWorker env [\<lparr> from' = ''inline'', config = queryDb_config env st \<rparr>]
             (workerUrl env) (wasmUrl env) = Inr worker"
    and "db_query worker (sqlQuery st) = Inr rows"
    and "worker_bytesRead worker = Inr bytes"
    and "worker_getStats worker = Inr stats"
  shows "fst (queryDb env st) = Inr (QueryData rows bytes stats)"
  using assms by (simp add: queryDb_def Let_def)

lemma runQuery_calls: "snd (runQuery env time st) = snd (queryDb env st)"
  by (simp add: runQuery_def queryDb_reset Let_def split: prod.splits)

lemma runQuery_resolved_state:
  assumes "fst (queryDb env st) = Inr data"
  shows "fst (runQuery env time st) =
           (runQuery_resolved env time data (runQuery_reset st))\<lparr> querying := False \<rparr>"
  using assms by (cases "queryDb env st") (simp add: runQuery_def queryDb_reset)

lemma runQuery_rejected_state:
  assumes "fst (queryDb env st) = Inl err"
  shows "fst (runQuery env time st) =
           (runQuery_rejected err (runQuery_reset st))\<lparr> querying := False \<rparr>"
  using assms by (cases "queryDb env st") (simp add: runQuery_def queryDb_reset)

lemma runQuery_querying: "querying (fst (runQuery env time st)) = False"
  by (simp add: runQuery_def Let_def split: prod.splits)

text \<open>The run of the component on its defaults, against the echoing library.\<close>

lemma queryDb_echo_initial:
  "queryDb echo_env initial =
     (Inr (QueryData
        [[(''sql'', JString DEFAULT_SQL_QUERY), (''url'', JString DEFAULT_DB_URL),
          (''requestChunkSize'', JNumber (Num 1024)),
          (''fileSize'', JNumber (Num 10261504))]]
        4096 \<lparr> stats_totalRequests = 4, stats_totalBytes = 10261504 \<rparr>),
      [CreateDbWorker
         [\<lparr> from' = ''inline'',
            config = \<lparr> serverMode = ''full'', url = DEFAULT_DB_URL,
                       requestChunkSize = Num 1024,
                       fileSize = Some (Num 10261504) \<rparr> \<rparr>]
         ''sqlite.worker.js'' ''sql-wasm.wasm'',
       DbQuery DEFAULT_SQL_QUERY, BytesRead, GetStats])"
  by (simp add: queryDb_def queryDb_config_eq Number_echo_env dec_default dec_1024
      echo_env_fields echo_worker_fields initial_fields)

lemma queryDb_rejecting_initial:
  "fst (queryDb (rejecting_env err) st) = Inl err"
  by (simp add: queryDb_def rejecting_env_fields Let_def)

subsection \<open>The file-size override\<close>

text \<open>
  C10. \<open>queryDb\<close> hands the library a configuration that has the \<open>fileSize\<close> key
  exactly when \<open>Number(dbFileSize) > 0\<close>, and then the key holds that number. An
  emptied field (\<open>null\<close>), \<open>undefined\<close>, \<open>NaN\<close>, zero, a negative number, and a
  string that \<open>StringToNumber\<close> reads as \<open>NaN\<close>, as zero or as a negative number, add
  no \<open>fileSize\<close>: the library is left to find the size.
\<close>

theorem queryDb_fileSize_guard:
  "(\<exists>rest. snd (queryDb env st) =
        CreateDbWorker [\<lparr> from' = ''inline'', config = queryDb_config env st \<rparr>]
          (workerUrl env) (wasmUrl env) # rest)
   \<and> (fileSize (queryDb_config env st) \<noteq> None \<longleftrightarrow> gt_zero (Number env (dbFileSize st)))
   \<and> (gt_zero (Number env (dbFileSize st)) \<longrightarrow>
        fileSize (queryDb_config env st) = Some (Number env (dbFileSize st)))
   \<and> (dbFileSize st \<in> {JNull, JUndefined, JNumber NaN, JNumber (Num 0)} \<longrightarrow>
        fileSize (queryDb_config env st) = None)
   \<and> (\<forall>q. q < 0 \<longrightarrow> dbFileSize st = JNumber (Num q) \<longrightarrow>
        fileSize (queryDb_config env st) = None)
   \<and> (\<forall>s. dbFileSize st = JString s \<longrightarrow>
          (StringToNumber env s = NaN \<or> (\<exists>q\<le>0. StringToNumber env s = Num q)) \<longrightarrow>
        fileSize (queryDb_config env st) = None)"
proof -
  have calls: "\<exists>rest. snd (queryDb env st) =
        CreateDbWorker [\<lparr> from' = ''inline'', config = queryDb_config env st \<rparr>]
          (workerUrl env) (wasmUrl env) # rest"
    using queryDb_calls [of env st] by blast
  have guard: "fileSize (queryDb_config env st) =
     (if gt_zero (Number env (dbFileSize st)) then Some (Number env (dbFileSize st)) else None)"
    by (rule queryDb_config_fields)
  have fixed: "dbFileSize st \<in> {JNull, JUndefined, JNumber NaN, JNumber (Num 0)} \<longrightarrow>
        fileSize (queryDb_config env st) = None"
    by (auto simp: guard Number_def)
  have neg: "\<forall>q. q < 0 \<longrightarrow> dbFileSize st = JNumber (Num q) \<longrightarrow>
        fileSize (queryDb_config env st) = None"
    by (auto simp: guard Number_def)
  have str: "\<forall>s. dbFileSize st = JString s \<longrightarrow>
          (StringToNumber env s = NaN \<or> (\<exists>q\<le>0. StringToNumber env s = Num q)) \<longrightarrow>
        fileSize (queryDb_config env st) = None"
    by (auto simp: guard Number_def)
  from calls guard fixed neg str show ?thesis by simp
qed

theorem queryDb_fileSize_guard_witness:
  "gt_zero (Number echo_env (dbFileSize initial))
   \<and> fileSize (queryDb_config echo_env initial) = Some (Num 10261504)
   \<and> fileSize (queryDb_config echo_env (initial\<lparr>dbFileSize := JNull\<rparr>)) = None
   \<and> fileSize (queryDb_config echo_env (initial\<lparr>dbFileSize := JNumber (Num (- 5))\<rparr>)) = None
   \<and> StringToNumber echo_env ''abc'' = NaN
   \<and> fileSize (queryDb_config echo_env (initial\<lparr>dbFileSize := JString ''abc''\<rparr>)) = None
   \<and> fileSize (queryDb_config echo_env (initial\<lparr>dbFileSize := JString ''''\<rparr>)) = None
   \<and> fileSize (queryDb_config echo_env (initial\<lparr>dbFileSize := JString ''0''\<rparr>)) = None
   \<and> fileSize (queryDb_config echo_env (initial\<lparr>dbFileSize := JString ''-5''\<rparr>)) = None"
proof -
  note guard = queryDb_fileSize_guard [THEN conjunct2]
  have pos: "gt_zero (Number echo_env (dbFileSize initial))"
    by (simp add: Number_initial)
  have some: "fileSize (queryDb_config echo_env initial) = Some (Num 10261504)"
    using guard [of echo_env initial] pos by (simp add: Number_initial)
  have null: "fileSize (queryDb_config echo_env (initial\<lparr>dbFileSize := JNull\<rparr>)) = None"
    using guard [of echo_env "initial\<lparr>dbFileSize := JNull\<rparr>"] by simp
  have minus: "fileSize (queryDb_config echo_env (initial\<lparr>dbFileSize := JNumber (Num (- 5))\<rparr>)) = None"
    using guard [of echo_env "initial\<lparr>dbFileSize := JNumber (Num (- 5))\<rparr>"] by simp
  have abc: "StringToNumber echo_env ''abc'' = NaN"
    by (simp add: echo_env_fields dec_text)
  have letters: "fileSize (queryDb_config echo_env (initial\<lparr>dbFileSize := JString ''abc''\<rparr>)) = None"
    using guard [of echo_env "initial\<lparr>dbFileSize := JString ''abc''\<rparr>"] abc by simp
  have empty: "fileSize (queryDb_config echo_env (initial\<lparr>dbFileSize := JString ''''\<rparr>)) = None"
    using guard [of echo_env "initial\<lparr>dbFileSize := JString ''''\<rparr>"]
    by (simp add: echo_env_fields dec_empty)
  have zero: "fileSize (queryDb_config echo_env (initial\<lparr>dbFileSize := JString ''0''\<rparr>)) = None"
    using guard [of echo_env "initial\<lparr>dbFileSize := JString ''0''\<rparr>"]
    by (simp add: echo_env_fields dec_zero)
  have neg: "fileSize (queryDb_config echo_env (initial\<lparr>dbFileSize := JString ''-5''\<rparr>)) = None"
    using guard [of echo_env "initial\<lparr>dbFileSize := JString ''-5''\<rparr>"]
    by (simp add: echo_env_fields dec_negative)
  from pos some null minus abc letters empty zero neg show ?thesis by simp
qed

subsection \<open>What reaches the library\<close>

text \<open>
  C3, as the component is now. Each click hands the library the URL field as
  \<open>config.url\<close>, the selected chunk size as a number as \<open>config.requestChunkSize\<close>
  and, besides these, the file-size field as \<open>config.fileSize\<close> whenever
  \<open>Number(dbFileSize) > 0\<close>; nothing else reaches \<open>createDbWorker\<close> but the fixed
  \<open>serverMode\<close>, \<open>from\<close> and the two script URLs. The calls after it can only be the
  query with the editor's text, \<open>bytesRead\<close> and \<open>getStats\<close>; once the worker exists
  the query is the second call, and when all four promises resolve the rows the
  library returned are the \<open>result\<close> the table is drawn from.
\<close>

theorem runQuery_forwards_inputs:
  "queryDb_config env st =
      \<lparr> serverMode = ''full'', url = dbUrl st,
        requestChunkSize = Number env (JString (pageSize st)),
        fileSize = (if gt_zero (Number env (dbFileSize st))
                    then Some (Number env (dbFileSize st)) else None) \<rparr>
   \<and> (\<exists>rest. snd (runQuery env time st) =
          CreateDbWorker [\<lparr> from' = ''inline'', config = queryDb_config env st \<rparr>]
            (workerUrl env) (wasmUrl env) # rest
        \<and> set rest \<subseteq> {DbQuery (sqlQuery st), BytesRead, GetStats})
   \<and> (\<forall>worker.
         createDbWorker env [\<lparr> from' = ''inline'', config = queryDb_config env st \<rparr>]
           (workerUrl env) (wasmUrl env) = Inr worker \<longrightarrow>
         (\<exists>rest. snd (runQuery env time st) =
            [CreateDbWorker [\<lparr> from' = ''inline'', config = queryDb_config env st \<rparr>]
               (workerUrl env) (wasmUrl env), DbQuery (sqlQuery st)] @ rest)
         \<and> (\<forall>rows bytes stats.
               db_query worker (sqlQuery st) = Inr rows \<longrightarrow>
               worker_bytesRead worker = Inr bytes \<longrightarrow>
               worker_getStats worker = Inr stats \<longrightarrow>
               result (fst (runQuery env time st)) = Some rows
               \<and> error (fst (runQuery env time st)) = False))"
proof -
  let ?files = "[\<lparr> from' = ''inline'', config = queryDb_config env st \<rparr>]"
  have shown: "result (fst (runQuery env time st)) = Some rows
      \<and> error (fst (runQuery env time st)) = False"
    if "createDbWorker env ?files (workerUrl env) (wasmUrl env) = Inr worker"
      and "db_query worker (sqlQuery st) = Inr rows"
      and "worker_bytesRead worker = Inr bytes"
      and "worker_getStats worker = Inr stats"
    for worker rows bytes stats
  proof -
    have "fst (queryDb env st) = Inr (QueryData rows bytes stats)"
      using that by (rule queryDb_resolves)
    then have "fst (runQuery env time st) =
        (runQuery_resolved env time (QueryData rows bytes stats) (runQuery_reset st))
          \<lparr> querying := False \<rparr>"
      by (rule runQuery_resolved_state)
    then show ?thesis
      by (simp add: runQuery_resolved_def runQuery_reset_def)
  qed
  have second: "\<exists>rest. snd (runQuery env time st) =
            [CreateDbWorker ?files (workerUrl env) (wasmUrl env), DbQuery (sqlQuery st)] @ rest"
    if "createDbWorker env ?files (workerUrl env) (wasmUrl env) = Inr worker" for worker
    using queryDb_created [OF that] by (simp add: runQuery_calls)
  have first: "\<exists>rest. snd (runQuery env time st) =
          CreateDbWorker ?files (workerUrl env) (wasmUrl env) # rest
        \<and> set rest \<subseteq> {DbQuery (sqlQuery st), BytesRead, GetStats}"
    using queryDb_calls [of env st] by (simp add: runQuery_calls)
  from queryDb_config_eq [of env st] first second shown show ?thesis
    by blast
qed

text \<open>
  The defaults against the echoing library: the row that comes back repeats the four
  values it was given, and it is the \<open>result\<close>.
\<close>

theorem runQuery_forwards_inputs_witness:
  "createDbWorker echo_env [\<lparr> from' = ''inline'', config = queryDb_config echo_env initial \<rparr>]
       (workerUrl echo_env) (wasmUrl echo_env)
     = Inr (echo_worker [\<lparr> from' = ''inline'', config = queryDb_config echo_env initial \<rparr>])
   \<and> queryDb_config echo_env initial =
       \<lparr> serverMode = ''full'', url = DEFAULT_DB_URL, requestChunkSize = Num 1024,
         fileSize = Some (Num 10261504) \<rparr>
   \<and> result (fst (runQuery echo_env 12 initial)) =
       Some [[(''sql'', JString DEFAULT_SQL_QUERY), (''url'', JString DEFAULT_DB_URL),
              (''requestChunkSize'', JNumber (Num 1024)),
              (''fileSize'', JNumber (Num 10261504))]]
   \<and> error (fst (runQuery echo_env 12 initial)) = False"
proof -
  let ?files = "[\<lparr> from' = ''inline'', config = queryDb_config echo_env initial \<rparr>]"
  note fwd = runQuery_forwards_inputs [of echo_env initial 12]
  have cfg: "queryDb_config echo_env initial =
       \<lparr> serverMode = ''full'', url = DEFAULT_DB_URL, requestChunkSize = Num 1024,
         fileSize = Some (Num 10261504) \<rparr>"
    using fwd [THEN conjunct1]
    by (simp add: Number_echo_env dec_default dec_1024 initial_fields)
  have created: "createDbWorker echo_env ?files (workerUrl echo_env) (wasmUrl echo_env)
      = Inr (echo_worker ?files)"
    by (simp add: echo_env_fields)
  have rows: "db_query (echo_worker ?files) (sqlQuery initial) =
       Inr [[(''sql'', JString DEFAULT_SQL_QUERY), (''url'', JString DEFAULT_DB_URL),
             (''requestChunkSize'', JNumber (Num 1024)),
             (''fileSize'', JNumber (Num 10261504))]]"
    by (simp add: echo_worker_fields cfg initial_fields)
  have "result (fst (runQuery echo_env 12 initial)) =
       Some [[(''sql'', JString DEFAULT_SQL_QUERY), (''url'', JString DEFAULT_DB_URL),
              (''requestChunkSize'', JNumber (Num 1024)),
              (''fileSize'', JNumber (Num 10261504))]]
      \<and> error (fst (runQuery echo_env 12 initial)) = False"
    using fwd [THEN conjunct2, THEN conjunct2, rule_format, OF created,
        THEN conjunct2, rule_format, OF rows]
    by (simp add: echo_worker_fields)
  with created cfg show ?thesis by simp
qed

text \<open>
  The claim as it stands, three inputs and no more, is what the earlier revision
  does; on the defaults of the present one the configuration carries a fourth value,
  the file size.
\<close>

theorem runQuery_three_inputs_counterexample:
  "hd (snd (runQuery echo_env 12 initial)) \<noteq>
     CreateDbWorker
       [\<lparr> from' = ''inline'',
          config = \<lparr> serverMode = ''full'', url = dbUrl initial,
                     requestChunkSize = Number echo_env (JString (pageSize initial)),
                     fileSize = None \<rparr> \<rparr>]
       (workerUrl echo_env) (wasmUrl echo_env)
   \<and> fileSize (queryDb_config echo_env initial) = Some (Num 10261504)"
  by (simp add: runQuery_calls queryDb_echo_initial queryDb_config_eq Number_initial)

lemma queryDb_part002_three_inputs:
  "\<exists>rest. snd (queryDb_part002 env st) =
      CreateDbWorker
        [\<lparr> from' = ''inline'',
           config = \<lparr> serverMode = ''full'', url = dbUrl st,
                      requestChunkSize = Number env (JString (pageSize st)),
                      fileSize = None \<rparr> \<rparr>]
        (workerUrl env) (wasmUrl env) # rest
    \<and> set rest \<subseteq> {DbQuery (sqlQuery st), BytesRead, GetStats}"
  by (simp add: queryDb_part002_def queryDb_config_part002_def Let_def split: sum.splits)

subsection \<open>After the promise has settled\<close>

lemma after_success_shows:
  "result after_success \<noteq> None" "jsonFile after_success \<noteq> None"
  "querying after_success = False"
proof -
  have "fst (queryDb echo_env initial) =
      Inr (QueryData
        [[(''sql'', JString DEFAULT_SQL_QUERY), (''url'', JString DEFAULT_DB_URL),
          (''requestChunkSize'', JNumber (Num 1024)),
          (''fileSize'', JNumber (Num 10261504))]]
        4096 \<lparr> stats_totalRequests = 4, stats_totalBytes = 10261504 \<rparr>)"
    by (simp add: queryDb_echo_initial)
  from runQuery_resolved_state [OF this, of 12]
  show "result after_success \<noteq> None" "jsonFile after_success \<noteq> None"
    "querying after_success = False"
    by (simp_all add: after_success_def runQuery_resolved_def runQuery_reset_def)
qed

text \<open>
  C9, as the component is now. When \<open>runQuery\<close> is through, \<open>querying\<close> is false. If
  the promise of \<open>queryDb\<close> rejected with \<open>err\<close>, then \<open>error\<close> is true, \<open>jsonFile\<close> is
  \<open>null\<close>, \<open>result\<close> is still the \<open>null\<close> of the reset, and \<open>errorMessage\<close> is
  \<open>err.message\<close> when that is not empty and the text \<open>An unknown error occurred\<close>
  when it is.
\<close>

theorem runQuery_settled:
  "querying (fst (runQuery env time st)) = False
   \<and> (\<forall>err. fst (queryDb env st) = Inl err \<longrightarrow>
         error (fst (runQuery env time st)) = True
         \<and> errorMessage (fst (runQuery env time st)) =
             (if message err \<noteq> '''' then message err else ''An unknown error occurred'')
         \<and> jsonFile (fst (runQuery env time st)) = None
         \<and> result (fst (runQuery env time st)) = None)"
proof -
  have "error (fst (runQuery env time st)) = True
         \<and> errorMessage (fst (runQuery env time st)) =
             (if message err \<noteq> '''' then message err else ''An unknown error occurred'')
         \<and> jsonFile (fst (runQuery env time st)) = None
         \<and> result (fst (runQuery env time st)) = None"
    if "fst (queryDb env st) = Inl err" for err
    using runQuery_rejected_state [OF that, of time]
    by (simp add: runQuery_rejected_def runQuery_reset_def)
  with runQuery_querying [of env time st] show ?thesis by blast
qed

text \<open>
  A failure after a success: the table and the export of the earlier query are
  there before the click and gone after it.
\<close>

theorem runQuery_settled_witness:
  "result after_success \<noteq> None \<and> jsonFile after_success \<noteq> None
   \<and> fst (queryDb (rejecting_env (Error ''Couldn't load database'')) after_success)
       = Inl (Error ''Couldn't load database'')
   \<and> querying (fst (runQuery (rejecting_env (Error ''Couldn't load database'')) 5 after_success))
       = False
   \<and> error (fst (runQuery (rejecting_env (Error ''Couldn't load database'')) 5 after_success))
       = True
   \<and> errorMessage (fst (runQuery (rejecting_env (Error ''Couldn't load database'')) 5 after_success))
       = ''Couldn't load database''
   \<and> jsonFile (fst (runQuery (rejecting_env (Error ''Couldn't load database'')) 5 after_success))
       = None
   \<and> result (fst (runQuery (rejecting_env (Error ''Couldn't load database'')) 5 after_success))
       = None"
proof -
  have rejects: "fst (queryDb (rejecting_env (Error ''Couldn't load database'')) after_success)
       = Inl (Error ''Couldn't load database'')"
    by (rule queryDb_rejecting_initial)
  from runQuery_settled [of "rejecting_env (Error ''Couldn't load database'')" 5 after_success]
    rejects after_success_shows
  show ?thesis by simp
qed

text \<open>
  The claim as it stands, \<open>errorMessage\<close> is the message of the rejection, is what the
  earlier revision does. The present one replaces an empty message.
\<close>

theorem runQuery_errorMessage_counterexample:
  "fst (queryDb (rejecting_env (Error '''')) initial) = Inl (Error '''')
   \<and> errorMessage (fst (runQuery (rejecting_env (Error '''')) 5 initial)) \<noteq> message (Error '''')
   \<and> errorMessage (fst (runQuery (rejecting_env (Error '''')) 5 initial))
       = ''An unknown error occurred''"
proof -
  have rejects: "fst (queryDb (rejecting_env (Error '''')) initial) = Inl (Error '''')"
    by (rule queryDb_rejecting_initial)
  from runQuery_rejected_state [OF rejects, of 5] rejects
  show ?thesis by (simp add: runQuery_rejected_def)
qed

lemma queryDb_part002_reset:
  "queryDb_part002 env (st\<lparr> result := None, querying := True, error := False \<rparr>)
     = queryDb_part002 env st"
  by (simp add: queryDb_part002_def queryDb_config_part002_def cong: sum.case_cong)

text \<open>The earlier revision stores the message as it is, empty or not.\<close>

lemma runQuery_part002_settled:
  assumes "fst (queryDb_part002 env st) = Inl err"
  shows "querying (fst (runQuery_part002 env time st)) = False"
    and "error (fst (runQuery_part002 env time st)) = True"
    and "errorMessage (fst (runQuery_part002 env time st)) = message err"
    and "jsonFile (fst (runQuery_part002 env time st)) = None"
    and "result (fst (runQuery_part002 env time st)) = None"
  using assms
  by (cases "queryDb_part002 env st";
      simp add: runQuery_part002_def queryDb_part002_reset)+

section \<open>Properties of the reader\<close>

subsection \<open>Pages and their bytes\<close>

lemma map_nat_upto: "map nat [int a .. int (a + n) - 1] = [a ..< a + n]"
proof (induction n)
  case 0
  then show ?case by simp
next
  case (Suc n)
  have "[int a .. int (a + Suc n) - 1] = [int a .. int (a + n) - 1] @ [int (a + n)]"
    using upto_rec2 [of "int a" "int (a + n)"] by simp
  with Suc show ?case by simp
qed

lemma pageIndices_nat:
  assumes "0 < ps" "0 < len"
  shows "pageIndices ps offset len = [offset div ps ..< Suc ((offset + len - 1) div ps)]"
proof -
  let ?f = "offset div ps" and ?l = "(offset + len - 1) div ps"
  have le: "?f \<le> ?l" using assms by (simp add: div_le_mono)
  have l: "(int offset + int len - 1) div int ps = int ?l"
    using assms by (simp add: zdiv_int of_nat_diff)
  have f: "int offset div int ps = int ?f" by (simp add: zdiv_int)
  from le obtain n where n: "Suc ?l = ?f + n" by (metis le_SucI le_iff_add)
  then have "int ?l = int (?f + n) - 1" by linarith
  then have "pageIndices ps offset len = map nat [int ?f .. int (?f + n) - 1]"
    by (simp only: pageIndices_def l f)
  also have "\<dots> = [?f ..< ?f + n]" by (rule map_nat_upto)
  finally show ?thesis using n by simp
qed

lemma pageIndices_distinct: "distinct (pageIndices ps offset len)"
proof -
  have "0 \<le> int offset div int ps" by (metis of_nat_0_le_iff zdiv_int)
  then have "inj_on nat (set [int offset div int ps .. (int offset + int len - 1) div int ps])"
    by (auto simp: inj_on_def)
  then show ?thesis by (simp add: pageIndices_def distinct_map)
qed

lemma pageIndices_set:
  "set (pageIndices ps offset len) =
     {i. int offset div int ps \<le> int i \<and> int i \<le> (int offset + int len - 1) div int ps}"
proof -
  have low: "0 \<le> int offset div int ps" by (metis of_nat_0_le_iff zdiv_int)
  show ?thesis
  proof (rule set_eqI)
    fix i
    show "i \<in> set (pageIndices ps offset len) \<longleftrightarrow>
      i \<in> {i. int offset div int ps \<le> int i \<and> int i \<le> (int offset + int len - 1) div int ps}"
    proof
      assume "i \<in> set (pageIndices ps offset len)"
      then obtain k where "int offset div int ps \<le> k" "k \<le> (int offset + int len - 1) div int ps"
        "i = nat k" by (auto simp: pageIndices_def)
      with low show "i \<in> {i. int offset div int ps \<le> int i
          \<and> int i \<le> (int offset + int len - 1) div int ps}" by simp
    next
      assume "i \<in> {i. int offset div int ps \<le> int i
          \<and> int i \<le> (int offset + int len - 1) div int ps}"
      then have "int i \<in> set [int offset div int ps .. (int offset + int len - 1) div int ps]"
        by simp
      then have "nat (int i) \<in> set (pageIndices ps offset len)"
        unfolding pageIndices_def set_map by (rule imageI)
      then show "i \<in> set (pageIndices ps offset len)" by simp
    qed
  qed
qed

lemma concat_pages:
  "concat (map (pageBytes ps xs) [f ..< f + n]) = take (n * ps) (drop (f * ps) xs)"
proof (induction n)
  case 0
  then show ?case by simp
next
  case (Suc n)
  have split: "take (n * ps + ps) (drop (f * ps) xs)
      = take (n * ps) (drop (f * ps) xs) @ take ps (drop (n * ps) (drop (f * ps) xs))"
    by (rule take_add)
  have last: "drop (n * ps) (drop (f * ps) xs) = drop ((f + n) * ps) xs"
    by (simp add: add_mult_distrib add.commute)
  have "concat (map (pageBytes ps xs) [f ..< f + Suc n])
      = concat (map (pageBytes ps xs) [f ..< f + n]) @ pageBytes ps xs (f + n)"
    by simp
  also have "\<dots> = take (n * ps) (drop (f * ps) xs) @ pageBytes ps xs (f + n)"
    by (simp only: Suc.IH)
  also have "\<dots> = take (n * ps + ps) (drop (f * ps) xs)"
    by (simp only: split last pageBytes_def)
  finally show ?case by (simp add: add.commute)
qed

lemma page_body:
  assumes "0 < ps"
  shows "take (snd (pageRange ps (length xs) i) + 1 - fst (pageRange ps (length xs) i))
            (drop (fst (pageRange ps (length xs) i)) xs)
         = pageBytes ps xs i"
proof (cases "i * ps < length xs")
  case True
  with assms have "min (length xs) ((i + 1) * ps) - 1 + 1 - i * ps = min (length xs - i * ps) ps"
    by (auto simp: min_def)
  then show ?thesis
    by (simp add: pageRange_def pageBytes_def min_def)
next
  case False
  then show ?thesis by (simp add: pageRange_def pageBytes_def)
qed

subsection \<open>Loading one page\<close>

lemma loadPage_hit:
  assumes "pageCache rd i = Some page"
  shows "loadPage host h tsize rd i = (Inr page, rd)"
  using assms by (simp add: loadPage_def get_def)

lemma loadPage_miss:
  assumes "pageCache rd i = None"
  shows "requested (snd (loadPage host h tsize rd i))
           = requested rd @ [pageRange (pageSize' h) tsize i]"
    and "totalRequests' (statsCollector (snd (loadPage host h tsize rd i)))
           = totalRequests' (statsCollector rd) + 1"
    and "\<And>page. fst (loadPage host h tsize rd i) = Inr page \<Longrightarrow>
           totalBytes' (statsCollector (snd (loadPage host h tsize rd i)))
             = totalBytes' (statsCollector rd) + length (data' page)
           \<and> pageCache (snd (loadPage host h tsize rd i)) = (pageCache rd)(i \<mapsto> page)
           \<and> index page = i
           \<and> data' page =
               take (snd (pageRange (pageSize' h) tsize i) + 1 - fst (pageRange (pageSize' h) tsize i))
                 (drop (fst (pageRange (pageSize' h) tsize i)) (resource host))"
  using assms
  by (auto simp: loadPage_def get_def put_def fetchRange_def http_get_def Let_def
      split: prod.splits Answer.splits sum.splits Reply.splits)

lemma loadPage_partial:
  assumes "\<forall>n s e. answers host n s e = Partial"
  shows "\<exists>page. fst (loadPage host h tsize rd i) = Inr page"
  using assms
  by (auto simp: loadPage_def get_def put_def fetchRange_def http_get_def Let_def
      split: prod.splits option.splits)

lemma loadPage_cache:
  assumes "cache_ok host h rd" "tsize = length (resource host)" "0 < pageSize' h"
  shows "cache_ok host h (snd (loadPage host h tsize rd i))"
    and "\<And>j p. pageCache rd j = Some p \<Longrightarrow> pageCache (snd (loadPage host h tsize rd i)) j = Some p"
    and "\<And>page. fst (loadPage host h tsize rd i) = Inr page \<Longrightarrow>
           data' page = pageBytes (pageSize' h) (resource host) i
           \<and> pageCache (snd (loadPage host h tsize rd i)) i = Some page"
proof -
  show "cache_ok host h (snd (loadPage host h tsize rd i))"
  proof (cases "pageCache rd i")
    case None
    show ?thesis
    proof (cases "fst (loadPage host h tsize rd i)")
      case (Inl e)
      then have "pageCache (snd (loadPage host h tsize rd i)) = pageCache rd"
        using None
        by (auto simp: loadPage_def get_def put_def fetchRange_def http_get_def Let_def
            split: prod.splits Answer.splits sum.splits Reply.splits)
      with assms(1) show ?thesis by (simp add: cache_ok_def)
    next
      case (Inr page)
      from loadPage_miss(3) [OF None Inr] assms page_body [OF assms(3), of "resource host" i]
      show ?thesis by (auto simp: cache_ok_def)
    qed
  next
    case (Some page)
    with assms(1) show ?thesis by (simp add: loadPage_hit)
  qed
  show "pageCache (snd (loadPage host h tsize rd i)) j = Some p" if "pageCache rd j = Some p" for j p
    using that
    by (auto simp: loadPage_def get_def put_def fetchRange_def http_get_def Let_def
        split: prod.splits Answer.splits sum.splits Reply.splits option.splits)
  show "data' page = pageBytes (pageSize' h) (resource host) i
           \<and> pageCache (snd (loadPage host h tsize rd i)) i = Some page"
    if "fst (loadPage host h tsize rd i) = Inr page" for page
  proof (cases "pageCache rd i")
    case None
    from loadPage_miss(3) [OF None that] assms page_body [OF assms(3), of "resource host" i]
    show ?thesis by simp
  next
    case (Some p)
    with that assms(1) show ?thesis by (auto simp: loadPage_hit cache_ok_def)
  qed
qed

subsection \<open>Loading the pages of a read\<close>

lemma loadPages_cache:
  assumes "cache_ok host h rd" "tsize = length (resource host)" "0 < pageSize' h"
  shows "cache_ok host h (snd (loadPages host h tsize rd is))
    \<and> (\<forall>j p. pageCache rd j = Some p \<longrightarrow> pageCache (snd (loadPages host h tsize rd is)) j = Some p)
    \<and> (\<forall>pages. fst (loadPages host h tsize rd is) = Inr pages \<longrightarrow>
          map data' pages = map (pageBytes (pageSize' h) (resource host)) is
          \<and> (\<forall>i \<in> set is. pageCache (snd (loadPages host h tsize rd is)) i \<noteq> None))"
  using assms(1)
proof (induction "is" arbitrary: rd)
  case Nil
  then show ?case by simp
next
  case (Cons i "is")
  obtain r rd1 where one: "loadPage host h tsize rd i = (r, rd1)" by (cases "loadPage host h tsize rd i")
  have ok1: "cache_ok host h rd1"
    using loadPage_cache(1) [OF Cons.prems assms(2,3), of i] one by simp
  have mono1: "pageCache rd1 j = Some p" if "pageCache rd j = Some p" for j p
    using loadPage_cache(2) [OF Cons.prems assms(2,3) that, of i] one by simp
  show ?case
  proof (cases r)
    case (Inl e)
    with one ok1 mono1 show ?thesis by simp
  next
    case (Inr page)
    have page: "data' page = pageBytes (pageSize' h) (resource host) i" "pageCache rd1 i = Some page"
      using loadPage_cache(3) [OF Cons.prems assms(2,3), of i page] one Inr by simp_all
    obtain r2 rd2 where rest: "loadPages host h tsize rd1 is = (r2, rd2)"
      by (cases "loadPages host h tsize rd1 is")
    from Cons.IH [OF ok1] rest
    have ok2: "cache_ok host h rd2"
      and mono2: "\<And>j p. pageCache rd1 j = Some p \<Longrightarrow> pageCache rd2 j = Some p"
      and res2: "\<And>pages. r2 = Inr pages \<Longrightarrow>
          map data' pages = map (pageBytes (pageSize' h) (resource host)) is
          \<and> (\<forall>i \<in> set is. pageCache rd2 i \<noteq> None)"
      by simp_all
    have snd_eq: "snd (loadPages host h tsize rd (i # is)) = rd2"
      using one Inr rest by (cases r2) simp_all
    have fst_eq: "fst (loadPages host h tsize rd (i # is)) =
        (case r2 of Inl e \<Rightarrow> Inl e | Inr pages \<Rightarrow> Inr (page # pages))"
      using one Inr rest by (cases r2) simp_all
    have "pageCache rd2 i = Some page" using mono2 page(2) by simp
    with ok2 mono1 mono2 res2 page show ?thesis
      unfolding snd_eq fst_eq by (cases r2) auto
  qed
qed

lemma loadPages_partial:
  assumes "\<forall>n s e. answers host n s e = Partial"
  shows "\<exists>pages. fst (loadPages host h tsize rd is) = Inr pages"
proof (induction "is" arbitrary: rd)
  case Nil
  then show ?case by simp
next
  case (Cons i "is")
  obtain page where "fst (loadPage host h tsize rd i) = Inr page"
    using loadPage_partial [OF assms] by blast
  then obtain rd1 where one: "loadPage host h tsize rd i = (Inr page, rd1)"
    by (cases "loadPage host h tsize rd i") simp
  obtain pages where "fst (loadPages host h tsize rd1 is) = Inr pages"
    using Cons.IH by blast
  then obtain rd2 where "loadPages host h tsize rd1 is = (Inr pages, rd2)"
    by (cases "loadPages host h tsize rd1 is") simp
  with one show ?case by simp
qed

lemma missing_Cons:
  "missing rd (i # is) = (if pageCache rd i = None then i # missing rd is else missing rd is)"
  by (simp add: missing_def get_def)

lemma missing_put:
  assumes "i \<notin> set is" "pageCache rd' = (pageCache rd)(i \<mapsto> page)"
  shows "missing rd' is = missing rd is"
  using assms by (auto simp: missing_def get_def intro!: filter_cong)

text \<open>
  What a read that succeeds costs: one request for each page it misses, in
  ascending order, and the bytes of those pages.
\<close>

lemma loadPages_accounting:
  assumes "tsize = length (resource host)" "0 < pageSize' h"
    and "distinct is" "fst (loadPages host h tsize rd is) = Inr pages"
  shows "requested (snd (loadPages host h tsize rd is))
           = requested rd @ map (pageRange (pageSize' h) tsize) (missing rd is)
    \<and> totalRequests' (statsCollector (snd (loadPages host h tsize rd is)))
           = totalRequests' (statsCollector rd) + length (missing rd is)
    \<and> totalBytes' (statsCollector (snd (loadPages host h tsize rd is)))
           = totalBytes' (statsCollector rd)
             + sum_list (map (\<lambda>i. length (pageBytes (pageSize' h) (resource host) i)) (missing rd is))"
  using assms(3,4)
proof (induction "is" arbitrary: rd pages)
  case Nil
  then show ?case by (simp add: missing_def)
next
  case (Cons i "is")
  obtain r rd1 where one: "loadPage host h tsize rd i = (r, rd1)" by (cases "loadPage host h tsize rd i")
  obtain r2 rd2 where rest: "loadPages host h tsize rd1 is = (r2, rd2)"
    by (cases "loadPages host h tsize rd1 is")
  from Cons.prems(2) one rest obtain page pages' where r: "r = Inr page" and r2: "r2 = Inr pages'"
    by (cases r; cases r2) simp_all
  have snd_eq: "snd (loadPages host h tsize rd (i # is)) = rd2"
    using one r rest r2 by simp
  have dist: "distinct is" "i \<notin> set is" using Cons.prems(1) by simp_all
  have IH: "requested rd2 = requested rd1 @ map (pageRange (pageSize' h) tsize) (missing rd1 is)
    \<and> totalRequests' (statsCollector rd2) = totalRequests' (statsCollector rd1) + length (missing rd1 is)
    \<and> totalBytes' (statsCollector rd2) = totalBytes' (statsCollector rd1)
         + sum_list (map (\<lambda>i. length (pageBytes (pageSize' h) (resource host) i)) (missing rd1 is))"
    using Cons.IH [OF dist(1), of rd1 pages'] rest r2 by simp
  show ?case
  proof (cases "pageCache rd i")
    case None
    have step: "requested rd1 = requested rd @ [pageRange (pageSize' h) tsize i]"
      "totalRequests' (statsCollector rd1) = totalRequests' (statsCollector rd) + 1"
      using loadPage_miss(1,2) [OF None, of host h tsize] one by simp_all
    have got: "totalBytes' (statsCollector rd1) = totalBytes' (statsCollector rd) + length (data' page)"
      "pageCache rd1 = (pageCache rd)(i \<mapsto> page)"
      "data' page = pageBytes (pageSize' h) (resource host) i"
      using loadPage_miss(3) [OF None, of host h tsize page] one r
        page_body [OF assms(2), of "resource host" i] assms(1)
      by simp_all
    have same: "missing rd1 is = missing rd is"
      using dist(2) got(2) by (rule missing_put)
    from IH step got same None show ?thesis
      unfolding snd_eq by (simp add: missing_Cons)
  next
    case (Some p)
    then have "rd1 = rd" using one by (simp add: loadPage_hit)
    with IH Some show ?thesis unfolding snd_eq by (simp add: missing_Cons)
  qed
qed

subsection \<open>Reads and sessions\<close>

lemma read_unfold:
  assumes "totalSize h = Some tsize" "offset + len \<le> tsize"
  shows "snd (read host h rd offset len)
           = snd (loadPages host h tsize rd (pageIndices (pageSize' h) offset len))"
    and "fst (read host h rd offset len) =
           (case fst (loadPages host h tsize rd (pageIndices (pageSize' h) offset len)) of
              Inl e \<Rightarrow> Inl e
            | Inr pages \<Rightarrow>
                Inr (take len (drop (offset - (offset div pageSize' h) * pageSize' h)
                       (concat (map data' pages)))))"
  using assms by (auto simp: read_def split: prod.splits sum.splits)

lemma read_state_unchanged:
  assumes "totalSize h = None \<or> (\<exists>tsize. totalSize h = Some tsize \<and> tsize < offset + len)"
  shows "snd (read host h rd offset len) = rd"
  using assms by (auto simp: read_def)

lemma slice_of_pages:
  assumes "0 < ps" "0 < len"
  shows "take len (drop (offset - (offset div ps) * ps)
           (concat (map (pageBytes ps xs) (pageIndices ps offset len))))
         = take len (drop offset xs)"
proof -
  let ?f = "offset div ps" and ?l = "(offset + len - 1) div ps"
  have "?f \<le> ?l" using assms by (simp add: div_le_mono)
  then obtain n where n: "Suc ?l = ?f + n" by (metis le_SucI le_iff_add)
  have low: "?f * ps \<le> offset" by (simp add: div_times_less_eq_dividend)
  have "offset + len - 1 < Suc ?l * ps"
    using assms(1) by (metis dividend_less_div_times mult.commute add.commute mult_Suc)
  moreover have "(?f + n) * ps = Suc ?l * ps" using n by simp
  ultimately have high: "offset + len \<le> (?f + n) * ps" using assms(2) by linarith
  have "concat (map (pageBytes ps xs) (pageIndices ps offset len)) = take (n * ps) (drop (?f * ps) xs)"
    using concat_pages [of ps xs ?f n] n by (simp add: pageIndices_nat [OF assms])
  moreover have "drop (offset - ?f * ps) (take (n * ps) (drop (?f * ps) xs))
      = take (n * ps - (offset - ?f * ps)) (drop offset xs)"
    using low by (simp add: drop_take)
  moreover have "len \<le> n * ps - (offset - ?f * ps)"
    using high low by (simp add: add_mult_distrib)
  ultimately show ?thesis by (simp add: min_def)
qed

lemma read_cache:
  assumes "cache_ok host h rd" "totalSize h = Some (length (resource host))" "0 < pageSize' h"
  shows "cache_ok host h (snd (read host h rd offset len))"
    and "\<And>j p. pageCache rd j = Some p \<Longrightarrow> pageCache (snd (read host h rd offset len)) j = Some p"
proof -
  show "cache_ok host h (snd (read host h rd offset len))"
  proof (cases "offset + len \<le> length (resource host)")
    case True
    with loadPages_cache [OF assms(1) refl assms(3)] assms(2) show ?thesis
      by (simp add: read_unfold)
  next
    case False
    with assms(1,2) show ?thesis by (simp add: read_state_unchanged)
  qed
  show "pageCache (snd (read host h rd offset len)) j = Some p" if "pageCache rd j = Some p" for j p
  proof (cases "offset + len \<le> length (resource host)")
    case True
    with loadPages_cache [OF assms(1) refl assms(3)] assms(2) that show ?thesis
      by (simp add: read_unfold)
  next
    case False
    with assms(2) that show ?thesis by (simp add: read_state_unchanged)
  qed
qed

text \<open>Whatever a read returns is the slice of the resource that was asked for.\<close>

lemma read_bytes:
  assumes "cache_ok host h rd" "totalSize h = Some (length (resource host))" "0 < pageSize' h"
    and "fst (read host h rd offset len) = Inr bytes"
  shows "offset + len \<le> length (resource host)"
    and "bytes = take len (drop offset (resource host))"
    and "\<forall>i \<in> set (pageIndices (pageSize' h) offset len).
           pageCache (snd (read host h rd offset len)) i \<noteq> None"
proof -
  show range: "offset + len \<le> length (resource host)"
    using assms(2,4) by (auto simp: read_def split: if_splits)
  let ?is = "pageIndices (pageSize' h) offset len"
  let ?tsize = "length (resource host)"
  from assms(4) range obtain pages where
    pages: "fst (loadPages host h ?tsize rd ?is) = Inr pages"
    and bytes: "bytes = take len (drop (offset - (offset div pageSize' h) * pageSize' h)
                       (concat (map data' pages)))"
    by (auto simp: read_unfold [OF assms(2)] split: sum.splits)
  from loadPages_cache [OF assms(1) refl assms(3), of ?is] pages
  have data: "map data' pages = map (pageBytes (pageSize' h) (resource host)) ?is"
    and cached: "\<forall>i \<in> set ?is. pageCache (snd (loadPages host h ?tsize rd ?is)) i \<noteq> None"
    by simp_all
  show "bytes = take len (drop offset (resource host))"
  proof (cases "len = 0")
    case True
    with bytes show ?thesis by simp
  next
    case False
    with slice_of_pages [OF assms(3), of len offset "resource host"] bytes data
    show ?thesis by simp
  qed
  from cached range show "\<forall>i \<in> set ?is. pageCache (snd (read host h rd offset len)) i \<noteq> None"
    by (simp add: read_unfold [OF assms(2)])
qed

lemma read_partial:
  assumes "\<forall>n s e. answers host n s e = Partial"
    and "totalSize h = Some tsize" "offset + len \<le> tsize"
  shows "\<exists>bytes. fst (read host h rd offset len) = Inr bytes"
  using loadPages_partial [OF assms(1), of h tsize rd "pageIndices (pageSize' h) offset len"]
  by (auto simp: read_unfold [OF assms(2,3)])

lemma newReader_ok: "cache_ok host h newReader"
  by (simp add: cache_ok_def newReader_def)

lemma session_cache:
  assumes "cache_ok host h rd" "totalSize h = Some (length (resource host))" "0 < pageSize' h"
  shows "cache_ok host h (session host h rd reads)"
  using assms(1)
proof (induction reads arbitrary: rd)
  case Nil
  then show ?case by simp
next
  case (Cons r reads)
  obtain offset len where r: "r = (offset, len)" by (cases r)
  from Cons.IH [OF read_cache(1) [OF Cons.prems assms(2,3)]] r show ?case by simp
qed

lemma read_in_range:
  assumes "totalSize h = Some tsize" "fst (read host h rd offset len) = Inr bytes"
  shows "offset + len \<le> tsize"
  using assms by (auto simp: read_def split: if_splits)

lemma read_accounts:
  assumes "totalSize h = Some (length (resource host))" "0 < pageSize' h"
    and "fst (read host h rd offset len) = Inr bytes"
  shows "requested (snd (read host h rd offset len))
           = requested rd @ map (pageRange (pageSize' h) (length (resource host)))
                              (missing rd (pageIndices (pageSize' h) offset len))
    \<and> totalRequests' (statsCollector (snd (read host h rd offset len)))
           = totalRequests' (statsCollector rd)
             + length (missing rd (pageIndices (pageSize' h) offset len))
    \<and> totalBytes' (statsCollector (snd (read host h rd offset len)))
           = totalBytes' (statsCollector rd)
             + sum_list (map (\<lambda>i. length (pageBytes (pageSize' h) (resource host) i))
                 (missing rd (pageIndices (pageSize' h) offset len)))"
proof -
  let ?is = "pageIndices (pageSize' h) offset len"
  have range: "offset + len \<le> length (resource host)"
    using assms(1,3) by (rule read_in_range)
  from assms(3) obtain pages where
    "fst (loadPages host h (length (resource host)) rd ?is) = Inr pages"
    by (auto simp: read_unfold [OF assms(1) range] split: sum.splits)
  from loadPages_accounting [OF refl assms(2) pageIndices_distinct this]
  show ?thesis by (simp add: read_unfold [OF assms(1) range])
qed

lemma readAdjacent_bytes:
  assumes "totalSize h = Some (length (resource host))" "0 < pageSize' h"
    and "cache_ok host h rd" "fst (readAdjacent host h rd offset lens) = Inr parts"
  shows "concat parts = take (sum_list lens) (drop offset (resource host))"
  using assms(3,4)
proof (induction lens arbitrary: rd offset parts)
  case Nil
  then show ?case by simp
next
  case (Cons len lens)
  obtain r rd1 where one: "read host h rd offset len = (r, rd1)"
    by (cases "read host h rd offset len")
  obtain r2 rd2 where rest: "readAdjacent host h rd1 (offset + len) lens = (r2, rd2)"
    by (cases "readAdjacent host h rd1 (offset + len) lens")
  from Cons.prems(2) one rest obtain bytes parts'
    where r: "r = Inr bytes" and r2: "r2 = Inr parts'" and parts: "parts = bytes # parts'"
    by (cases r; cases r2) auto
  have bytes: "bytes = take len (drop offset (resource host))"
    using read_bytes(2) [OF Cons.prems(1) assms(1,2), of offset len bytes] one r by simp
  have "cache_ok host h rd1"
    using read_cache(1) [OF Cons.prems(1) assms(1,2), of offset len] one by simp
  from Cons.IH [OF this, of "offset + len" parts'] rest r2
  have "concat parts' = take (sum_list lens) (drop (offset + len) (resource host))" by simp
  with bytes parts show ?case
    by (simp add: take_add add.commute)
qed

text \<open>
  C1. On a handle whose size is the size of the resource, in whatever state the
  earlier reads of the session left it: the bytes a read returns are the bytes
  \<open>[offset, offset+length)\<close> of the resource, and a read returns only within the
  resource; when the host answers every request with partial content, every read
  within the resource does return. Reads that follow one another without a gap
  return, concatenated, what one direct read of the whole range returns, which is
  that range of the resource. The same read issued again later in the session
  returns the same bytes.
\<close>

theorem read_round_trip:
  assumes "totalSize h = Some (length (resource host))" and "0 < pageSize' h"
  shows
    "(\<forall>bytes. fst (read host h (session host h newReader before) offset len) = Inr bytes \<longrightarrow>
        offset + len \<le> length (resource host)
        \<and> bytes = take len (drop offset (resource host)))
     \<and> ((\<forall>n s e. answers host n s e = Partial) \<longrightarrow> offset + len \<le> length (resource host) \<longrightarrow>
          fst (read host h (session host h newReader before) offset len)
            = Inr (take len (drop offset (resource host))))
     \<and> (\<forall>parts. fst (readAdjacent host h (session host h newReader before) offset lens) = Inr parts \<longrightarrow>
          concat parts = take (sum_list lens) (drop offset (resource host))
          \<and> (\<forall>whole. fst (read host h (session host h newReader later) offset (sum_list lens)) = Inr whole
                \<longrightarrow> concat parts = whole))
     \<and> (\<forall>first again.
          fst (read host h (session host h newReader before) offset len) = Inr first \<longrightarrow>
          fst (read host h (session host h newReader (before @ between)) offset len) = Inr again \<longrightarrow>
          first = again)"
proof -
  have ok: "cache_ok host h (session host h newReader reads)" for reads
    using newReader_ok assms by (rule session_cache)
  have bytes: "offset' + len' \<le> length (resource host)
      \<and> bytes = take len' (drop offset' (resource host))"
    if "fst (read host h (session host h newReader reads) offset' len') = Inr bytes"
    for reads offset' len' bytes
    using read_bytes(1,2) [OF ok assms that] by simp
  have returns: "fst (read host h (session host h newReader before) offset len)
            = Inr (take len (drop offset (resource host)))"
    if "\<forall>n s e. answers host n s e = Partial" "offset + len \<le> length (resource host)"
  proof -
    from read_partial [OF that(1) assms(1) that(2)] obtain bs
      where "fst (read host h (session host h newReader before) offset len) = Inr bs" by blast
    with bytes [OF this] show ?thesis by simp
  qed
  have adjacent: "concat parts = take (sum_list lens) (drop offset (resource host))"
    if "fst (readAdjacent host h (session host h newReader before) offset lens) = Inr parts"
    for parts
    using assms ok that by (rule readAdjacent_bytes)
  show ?thesis
    apply (intro conjI allI impI)
    subgoal using bytes by blast
    subgoal using bytes by blast
    subgoal using returns by blast
    subgoal using adjacent by blast
    subgoal using adjacent bytes by metis
    subgoal using bytes by metis
    done
qed

subsection \<open>Running the reader on ten bytes\<close>

lemma small_pages:
  "pageIndices 4 2 5 = [0, 1]" "pageIndices 4 3 6 = [0, 1, 2]"
  "pageIndices 4 0 3 = [0]" "pageIndices 4 3 0 = [0]" "pageIndices 4 3 7 = [0, 1, 2]"
  "pageIndices 4 0 0 = []"
  by (simp_all add: pageIndices_def upto.simps)

lemma flaky_first:
  "read flaky_host small_handle newReader 2 5 =
     (Inl NetworkError,
      \<lparr> pageCache = Map.empty, statsCollector = \<lparr> totalRequests' = 1, totalBytes' = 0 \<rparr>,
        requested = [(0, 3)] \<rparr>)"
  by (simp add: read_def small_handle_def small_pages loadPage_def get_def put_def
      pageRange_def fetchRange_def http_get_def flaky_host_def newReader_def Let_def)

lemma flaky_retry:
  "fst (read flaky_host small_handle (session flaky_host small_handle newReader [(2, 5)]) 2 5)
     = Inr [12, 13, 14, 15, 16]"
  by (simp add: flaky_first)
    (simp add: read_def small_handle_def small_pages loadPage_def get_def put_def
      pageRange_def fetchRange_def http_get_def flaky_host_def small_bytes_def Let_def)

lemma serving_adjacent:
  "fst (readAdjacent (serving small_bytes) small_handle newReader 0 [3, 0, 7])
     = Inr [[10, 11, 12], [], [13, 14, 15, 16, 17, 18, 19]]"
  by (simp add: read_def small_handle_def small_pages loadPage_def get_def put_def
      pageRange_def fetchRange_def http_get_def serving_def small_bytes_def newReader_def Let_def)

text \<open>
  Ten bytes in pages of four. On the host whose first answer is a transport failure
  the first read fails and the same read, issued again, returns the slice; on the
  host that always answers, a read after another and three adjacent reads, one of
  them of no bytes, that together cover the resource.
\<close>

theorem read_round_trip_witness:
  "totalSize small_handle = Some (length (resource flaky_host))
   \<and> 0 < pageSize' small_handle
   \<and> fst (read flaky_host small_handle newReader 2 5) = Inl NetworkError
   \<and> fst (read flaky_host small_handle (session flaky_host small_handle newReader [(2, 5)]) 2 5)
       = Inr [12, 13, 14, 15, 16]
   \<and> take 5 (drop 2 (resource flaky_host)) = [12, 13, 14, 15, 16]
   \<and> (\<forall>n s e. answers (serving small_bytes) n s e = Partial)
   \<and> fst (read (serving small_bytes) small_handle
             (session (serving small_bytes) small_handle newReader [(0, 1)]) 3 6)
       = Inr [13, 14, 15, 16, 17, 18]
   \<and> fst (readAdjacent (serving small_bytes) small_handle newReader 0 [3, 0, 7])
       = Inr [[10, 11, 12], [], [13, 14, 15, 16, 17, 18, 19]]
   \<and> concat [[10, 11, 12], [], [13, 14, 15, 16, 17, 18, 19]] = resource (serving small_bytes)"
proof -
  have size_f: "totalSize small_handle = Some (length (resource flaky_host))"
    by (simp add: small_handle_def flaky_host_def small_bytes_def)
  have size_s: "totalSize small_handle = Some (length (resource (serving small_bytes)))"
    by (simp add: small_handle_def serving_def small_bytes_def)
  have ps: "0 < pageSize' small_handle"
    by (simp add: small_handle_def)
  have always: "\<forall>n s e. answers (serving small_bytes) n s e = Partial"
    by (simp add: serving_def)
  have failed: "fst (read flaky_host small_handle newReader 2 5) = Inl NetworkError"
    by (simp add: flaky_first)
  note flaky = read_round_trip [OF size_f ps, where before = "[(2, 5)]" and offset = 2 and len = 5,
      THEN conjunct1, rule_format, OF flaky_retry]
  then have slice: "take 5 (drop 2 (resource flaky_host)) = [12, 13, 14, 15, 16]"
    by simp
  have "fst (read (serving small_bytes) small_handle
             (session (serving small_bytes) small_handle newReader [(0, 1)]) 3 6)
       = Inr (take 6 (drop 3 (resource (serving small_bytes))))"
    using read_round_trip [OF size_s ps, where before = "[(0, 1)]" and offset = 3 and len = 6,
        THEN conjunct2, THEN conjunct1] always
    by (simp add: serving_def small_bytes_def)
  then have later: "fst (read (serving small_bytes) small_handle
             (session (serving small_bytes) small_handle newReader [(0, 1)]) 3 6)
       = Inr [13, 14, 15, 16, 17, 18]"
    by (simp add: serving_def small_bytes_def)
  have "concat [[10, 11, 12], [], [13, 14, 15, 16, 17, 18, 19]]
      = take (sum_list [3, 0, 7]) (drop 0 (resource (serving small_bytes)))"
    using read_round_trip [OF size_s ps, where before = "[]" and offset = 0 and lens = "[3, 0, 7]",
        THEN conjunct2, THEN conjunct2, THEN conjunct1, rule_format, THEN conjunct1]
      serving_adjacent
    by simp
  then have whole: "concat [[10, 11, 12], [], [13, 14, 15, 16, 17, 18, 19]]
      = resource (serving small_bytes)"
    by (simp add: serving_def small_bytes_def)
  from size_f ps failed flaky_retry slice always later serving_adjacent whole
  show ?thesis by blast
qed

subsection \<open>Pages touched, ranges fetched, counters\<close>

lemma scenario_pages: "pageIndices 1024 0 2048 = [0, 1]" "pageIndices 1024 512 256 = [0]"
  by (simp_all add: pageIndices_def upto.simps)

lemma newReader_fields:
  "requested newReader = []"
  "totalRequests' (statsCollector newReader) = 0"
  "totalBytes' (statsCollector newReader) = 0"
  "pageCache newReader i = None"
  by (simp_all add: newReader_def)

lemma missing_newReader: "missing newReader is = is"
  by (simp add: missing_def get_def newReader_def)

lemma missing_cached:
  assumes "\<forall>i \<in> set is. pageCache rd i \<noteq> None"
  shows "missing rd is = []"
  using assms by (simp add: missing_def get_def)

text \<open>
  The scenario of section 8 on any resource of \<open>10,000\<close> bytes whose host answers
  every request with partial content.
\<close>

lemma scenario:
  assumes "length (resource host) = 10000" "\<forall>n s e. answers host n s e = Partial"
  shows "requested (snd (read host scenario_handle newReader 0 2048)) = [(0, 1023), (1024, 2047)]"
    and "totalRequests' (statsCollector (snd (read host scenario_handle newReader 0 2048))) = 2"
    and "totalBytes' (statsCollector (snd (read host scenario_handle newReader 0 2048))) = 2048"
    and "requested (snd (read host scenario_handle
            (snd (read host scenario_handle newReader 0 2048)) 512 256))
          = [(0, 1023), (1024, 2047)]"
    and "totalRequests' (statsCollector (snd (read host scenario_handle
            (snd (read host scenario_handle newReader 0 2048)) 512 256))) = 2"
    and "totalBytes' (statsCollector (snd (read host scenario_handle
            (snd (read host scenario_handle newReader 0 2048)) 512 256))) = 2048"
proof -
  let ?rd1 = "snd (read host scenario_handle newReader 0 2048)"
  have size: "totalSize scenario_handle = Some (length (resource host))"
    and ps: "0 < pageSize' scenario_handle" and ps_eq: "pageSize' scenario_handle = 1024"
    using assms(1) by (simp_all add: scenario_handle_def)
  obtain bytes1 where first: "fst (read host scenario_handle newReader 0 2048) = Inr bytes1"
    using read_partial [OF assms(2) size, of 0 2048 newReader] assms(1) by auto
  have acc1: "requested ?rd1 = map (pageRange 1024 10000) [0, 1]
      \<and> totalRequests' (statsCollector ?rd1) = length [0::nat, 1]
      \<and> totalBytes' (statsCollector ?rd1)
          = sum_list (map (\<lambda>i. length (pageBytes 1024 (resource host) i)) [0, 1])"
    using read_accounts [OF size ps first]
    by (simp add: ps_eq scenario_pages missing_newReader assms(1) newReader_fields)
  from acc1 show r1: "requested ?rd1 = [(0, 1023), (1024, 2047)]"
    by (simp add: pageRange_def)
  from acc1 show n1: "totalRequests' (statsCollector ?rd1) = 2" by simp
  from acc1 show b1: "totalBytes' (statsCollector ?rd1) = 2048"
    by (simp add: pageBytes_def assms(1))
  have cached: "\<forall>i \<in> set (pageIndices 1024 0 2048). pageCache ?rd1 i \<noteq> None"
    using read_bytes(3) [OF newReader_ok size ps first] by (simp add: ps_eq)
  then have hit: "missing ?rd1 (pageIndices 1024 512 256) = []"
    by (intro missing_cached) (simp add: scenario_pages)
  obtain bytes2 where second: "fst (read host scenario_handle ?rd1 512 256) = Inr bytes2"
    using read_partial [OF assms(2) size, of 512 256 ?rd1] assms(1) by auto
  from read_accounts [OF size ps second] hit r1 n1 b1
  show "requested (snd (read host scenario_handle ?rd1 512 256)) = [(0, 1023), (1024, 2047)]"
    and "totalRequests' (statsCollector (snd (read host scenario_handle ?rd1 512 256))) = 2"
    and "totalBytes' (statsCollector (snd (read host scenario_handle ?rd1 512 256))) = 2048"
    by (simp_all add: ps_eq)
qed

text \<open>
  C5. The pages a read touches are the indices from \<open>floor(offset/pageSize)\<close> to
  \<open>floor((offset+length-1)/pageSize)\<close>, both included. A read that returns has
  asked the host, for each of these pages the cache did not hold and in ascending
  order, for the range \<open>index*pageSize\<close> to \<open>min(totalSize, (index+1)*pageSize) - 1\<close>,
  once; \<open>totalRequests\<close> has grown by the number of these pages and \<open>totalBytes\<close> by
  the length of their bytes, a last partial page counting for what it holds. With
  \<open>10,000\<close> bytes in pages of \<open>1024\<close> and an empty cache, \<open>read(0, 2048)\<close> asks for
  \<open>0-1023\<close> and \<open>1024-2047\<close> and leaves \<open>totalRequests = 2\<close> and \<open>totalBytes = 2048\<close>;
  \<open>read(512, 256)\<close> after it asks for nothing.
\<close>

theorem read_pages_and_counters:
  assumes "totalSize h = Some (length (resource host))" and "0 < pageSize' h"
  shows
    "set (pageIndices (pageSize' h) offset len) =
        {i. int offset div int (pageSize' h) \<le> int i
            \<and> int i \<le> (int offset + int len - 1) div int (pageSize' h)}
     \<and> (\<forall>i. pageRange (pageSize' h) (length (resource host)) i
            = (i * pageSize' h, min (length (resource host)) ((i + 1) * pageSize' h) - 1))
     \<and> (\<forall>bytes. fst (read host h rd offset len) = Inr bytes \<longrightarrow>
          requested (snd (read host h rd offset len))
            = requested rd @ map (pageRange (pageSize' h) (length (resource host)))
                               (missing rd (pageIndices (pageSize' h) offset len))
          \<and> totalRequests' (statsCollector (snd (read host h rd offset len)))
            = totalRequests' (statsCollector rd)
              + length (missing rd (pageIndices (pageSize' h) offset len))
          \<and> totalBytes' (statsCollector (snd (read host h rd offset len)))
            = totalBytes' (statsCollector rd)
              + sum_list (map (\<lambda>i. length (pageBytes (pageSize' h) (resource host) i))
                  (missing rd (pageIndices (pageSize' h) offset len))))
     \<and> (h = scenario_handle \<longrightarrow> (\<forall>n s e. answers host n s e = Partial) \<longrightarrow>
          requested (snd (read host h newReader 0 2048)) = [(0, 1023), (1024, 2047)]
          \<and> totalRequests' (statsCollector (snd (read host h newReader 0 2048))) = 2
          \<and> totalBytes' (statsCollector (snd (read host h newReader 0 2048))) = 2048
          \<and> requested (snd (read host h (snd (read host h newReader 0 2048)) 512 256))
              = requested (snd (read host h newReader 0 2048))
          \<and> totalRequests' (statsCollector
                (snd (read host h (snd (read host h newReader 0 2048)) 512 256))) = 2
          \<and> totalBytes' (statsCollector
                (snd (read host h (snd (read host h newReader 0 2048)) 512 256))) = 2048)"
proof (intro conjI allI impI)
  show "set (pageIndices (pageSize' h) offset len) =
        {i. int offset div int (pageSize' h) \<le> int i
            \<and> int i \<le> (int offset + int len - 1) div int (pageSize' h)}"
    by (rule pageIndices_set)
  show "pageRange (pageSize' h) (length (resource host)) i
            = (i * pageSize' h, min (length (resource host)) ((i + 1) * pageSize' h) - 1)" for i
    by (simp add: pageRange_def)
next
  fix bytes
  assume "fst (read host h rd offset len) = Inr bytes"
  note acc = read_accounts [OF assms this]
  from acc show "requested (snd (read host h rd offset len))
            = requested rd @ map (pageRange (pageSize' h) (length (resource host)))
                               (missing rd (pageIndices (pageSize' h) offset len))" by simp
  from acc show "totalRequests' (statsCollector (snd (read host h rd offset len)))
            = totalRequests' (statsCollector rd)
              + length (missing rd (pageIndices (pageSize' h) offset len))" by simp
  from acc show "totalBytes' (statsCollector (snd (read host h rd offset len)))
            = totalBytes' (statsCollector rd)
              + sum_list (map (\<lambda>i. length (pageBytes (pageSize' h) (resource host) i))
                  (missing rd (pageIndices (pageSize' h) offset len)))" by simp
next
  assume h: "h = scenario_handle" and always: "\<forall>n s e. answers host n s e = Partial"
  from assms(1) h have len: "length (resource host) = 10000"
    by (simp add: scenario_handle_def)
  note sc = scenario [OF len always]
  from sc(1) h show "requested (snd (read host h newReader 0 2048)) = [(0, 1023), (1024, 2047)]"
    by simp
  from sc(2) h show "totalRequests' (statsCollector (snd (read host h newReader 0 2048))) = 2"
    by simp
  from sc(3) h show "totalBytes' (statsCollector (snd (read host h newReader 0 2048))) = 2048"
    by simp
  from sc(1,4) h
  show "requested (snd (read host h (snd (read host h newReader 0 2048)) 512 256))
              = requested (snd (read host h newReader 0 2048))"
    by simp
  from sc(5) h show "totalRequests' (statsCollector
                (snd (read host h (snd (read host h newReader 0 2048)) 512 256))) = 2"
    by simp
  from sc(6) h show "totalBytes' (statsCollector
                (snd (read host h (snd (read host h newReader 0 2048)) 512 256))) = 2048"
    by simp
qed

lemma small_pages_one: "pageIndices 4 0 (Suc 0) = [0]"
  by (simp add: pageIndices_def upto.simps)

lemma serving_first:
  "session (serving small_bytes) small_handle newReader [(0, 1)] =
     \<lparr> pageCache = [0 \<mapsto> \<lparr> index = 0, data' = [10, 11, 12, 13], fetchedAt = 0 \<rparr>],
       statsCollector = \<lparr> totalRequests' = 1, totalBytes' = 4 \<rparr>,
       requested = [(0, 3)] \<rparr>"
  by (simp add: read_def small_handle_def small_pages_one loadPage_def get_def put_def
      pageRange_def fetchRange_def http_get_def serving_def small_bytes_def newReader_def Let_def)

lemma serving_second:
  "fst (read (serving small_bytes) small_handle
         (session (serving small_bytes) small_handle newReader [(0, 1)]) 3 7)
     = Inr [13, 14, 15, 16, 17, 18, 19]"
  unfolding serving_first
  by (simp add: read_def small_handle_def small_pages loadPage_def get_def put_def
      pageRange_def fetchRange_def http_get_def serving_def small_bytes_def Let_def)

text \<open>
  The scenario on ten thousand zero bytes; and ten bytes in pages of four, where
  page \<open>0\<close> is cached by an earlier read and the last page has two bytes: the read of
  \<open>[3, 10)\<close> asks for \<open>4-7\<close> and \<open>8-9\<close> and counts six bytes.
\<close>

theorem read_pages_and_counters_witness:
  "totalSize scenario_handle = Some (length (resource scenario_host))
   \<and> 0 < pageSize' scenario_handle
   \<and> (\<forall>n s e. answers scenario_host n s e = Partial)
   \<and> requested (snd (read scenario_host scenario_handle newReader 0 2048))
       = [(0, 1023), (1024, 2047)]
   \<and> totalRequests' (statsCollector (snd (read scenario_host scenario_handle newReader 0 2048))) = 2
   \<and> totalBytes' (statsCollector (snd (read scenario_host scenario_handle newReader 0 2048))) = 2048
   \<and> totalRequests' (statsCollector (snd (read scenario_host scenario_handle
          (snd (read scenario_host scenario_handle newReader 0 2048)) 512 256))) = 2
   \<and> totalBytes' (statsCollector (snd (read scenario_host scenario_handle
          (snd (read scenario_host scenario_handle newReader 0 2048)) 512 256))) = 2048
   \<and> fst (read (serving small_bytes) small_handle
            (session (serving small_bytes) small_handle newReader [(0, 1)]) 3 7)
       = Inr [13, 14, 15, 16, 17, 18, 19]
   \<and> set (pageIndices (pageSize' small_handle) 3 7) = {0, 1, 2}
   \<and> missing (session (serving small_bytes) small_handle newReader [(0, 1)])
         (pageIndices (pageSize' small_handle) 3 7) = [1, 2]
   \<and> requested (snd (read (serving small_bytes) small_handle
            (session (serving small_bytes) small_handle newReader [(0, 1)]) 3 7))
       = [(0, 3), (4, 7), (8, 9)]
   \<and> totalRequests' (statsCollector (snd (read (serving small_bytes) small_handle
            (session (serving small_bytes) small_handle newReader [(0, 1)]) 3 7))) = 3
   \<and> totalBytes' (statsCollector (snd (read (serving small_bytes) small_handle
            (session (serving small_bytes) small_handle newReader [(0, 1)]) 3 7))) = 10"
proof -
  let ?rd = "session (serving small_bytes) small_handle newReader [(0, 1)]"
  have size: "totalSize scenario_handle = Some (length (resource scenario_host))"
    by (simp add: scenario_handle_def scenario_host_def serving_def)
  have ps: "0 < pageSize' scenario_handle"
    by (simp add: scenario_handle_def)
  have always: "\<forall>n s e. answers scenario_host n s e = Partial"
    by (simp add: scenario_host_def serving_def)
  note sc = read_pages_and_counters [OF size ps, THEN conjunct2, THEN conjunct2, THEN conjunct2,
      rule_format, OF refl always [rule_format]]
  have size_s: "totalSize small_handle = Some (length (resource (serving small_bytes)))"
    by (simp add: small_handle_def serving_def small_bytes_def)
  have ps_s: "0 < pageSize' small_handle"
    by (simp add: small_handle_def)
  have pages: "pageIndices (pageSize' small_handle) 3 7 = [0, 1, 2]"
    by (simp add: small_handle_def small_pages)
  have miss: "missing ?rd (pageIndices (pageSize' small_handle) 3 7) = [1, 2]"
    unfolding serving_first pages by (simp add: missing_def get_def)
  note acc = read_pages_and_counters [OF size_s ps_s, where rd = ?rd and offset = 3 and len = 7,
      THEN conjunct2, THEN conjunct2, THEN conjunct1, rule_format, OF serving_second]
  have before: "requested ?rd = [(0, 3)]" "totalRequests' (statsCollector ?rd) = 1"
    "totalBytes' (statsCollector ?rd) = 4"
    unfolding serving_first by simp_all
  have ranges: "map (pageRange (pageSize' small_handle) (length (resource (serving small_bytes))))
      [1, 2] = [(4, 7), (8, 9)]"
    by (simp add: pageRange_def small_handle_def serving_def small_bytes_def)
  have lengths: "sum_list (map (\<lambda>i. length (pageBytes (pageSize' small_handle)
      (resource (serving small_bytes)) i)) [1, 2]) = 6"
    by (simp add: pageBytes_def small_handle_def serving_def small_bytes_def)
  have req: "requested (snd (read (serving small_bytes) small_handle ?rd 3 7))
       = [(0, 3), (4, 7), (8, 9)]"
    using acc [THEN conjunct1] unfolding miss ranges before by simp
  have n: "totalRequests' (statsCollector (snd (read (serving small_bytes) small_handle ?rd 3 7))) = 3"
    using acc [THEN conjunct2, THEN conjunct1] unfolding miss before by simp
  have b: "totalBytes' (statsCollector (snd (read (serving small_bytes) small_handle ?rd 3 7))) = 10"
    using acc [THEN conjunct2, THEN conjunct2] unfolding miss lengths before by simp
  have set_pages: "set (pageIndices (pageSize' small_handle) 3 7) = {0, 1, 2}"
    unfolding pages by auto
  from size ps always sc serving_second set_pages miss req n b show ?thesis
    by simp
qed

end
